theory Spec2Isabelle
  imports Main "HOL-Library.Sublist"
begin

section \<open>The event payload\<close>

text \<open>
  The handler receives an \<^verbatim>\<open>events.CloudWatchEvent\<close> whose \<^verbatim>\<open>Detail\<close> is a
  \<^verbatim>\<open>json.RawMessage\<close>. The raw bytes are taken at the level of the JSON value they spell:
  the nil slice, bytes that are not a JSON text, or a JSON value. A number keeps its literal.
\<close>

datatype json =
  JNull
  | JBool bool
  | JNumber string
  | JString string
  | JArray "json list"
  | JObject "(string \<times> json) list"

datatype RawMessage = RawNil | RawMalformed | RawJSON json

record CloudWatchEvent =
  Version :: string
  ID :: string
  DetailType :: string
  Source :: string
  AccountID :: string
  Time :: string
  Region :: string
  Resources :: "string list"
  Detail :: RawMessage

record CloudWatchEventDetail =
  AutoScalingGroupName :: string
  EC2InstanceId :: string
  LifecycleActionToken :: string
  LifecycleHookName :: string
  LifecycleTransition :: string
  Wait :: bool

definition DetailTypeTerminateLifecycle :: string where
  "DetailTypeTerminateLifecycle = ''EC2 Instance-terminate Lifecycle Action''"

definition LifecycleTransitionTerminating :: string where
  "LifecycleTransitionTerminating = ''autoscaling:EC2_INSTANCE_TERMINATING''"

section \<open>Errors and outcomes\<close>

text \<open>
  Every \<^verbatim>\<open>error\<close> value the program can return: the two \<^verbatim>\<open>fmt.Errorf\<close> of the
  validation, the failures of \<^verbatim>\<open>encoding/json\<close> and \<^verbatim>\<open>encoding/base64\<close>, the three
  messages about missing data, and an error handed back by an AWS call.
\<close>

datatype error =
  MarshalError
  | DetailTypeError string
  | UnmarshalError
  | LifecycleTransitionError string
  | NoUserData string
  | CorruptInputError
  | NoECSCluster
  | NoContainerInstance string string
  | ServiceError string

text \<open>
  A Go function of result type \<^verbatim>\<open>(*events.CloudWatchEvent, error)\<close> returns a pair of
  possibly-nil values, or it panics (a nil pointer is dereferenced) and returns nothing.
\<close>

datatype outcome =
  Return "CloudWatchEvent option" "error option"
  | Panic


fun is_not_found_error :: "error \<Rightarrow> bool" where
  "is_not_found_error NoECSCluster = True"
| "is_not_found_error (NoContainerInstance _ _) = True"
| "is_not_found_error _ = False"

section \<open>Decoding and encoding the detail\<close>

text \<open>
  \<^verbatim>\<open>json.Unmarshal(evt.Detail, &evtDetail)\<close> with \<^verbatim>\<open>evtDetail\<close> a nil
  \<^verbatim>\<open>*CloudWatchEventDetail\<close>, as \<^verbatim>\<open>encoding/json\<close> documents it: a key selects the
  struct field of the same name, or else the one equal to it up to letter case; a key that
  selects no field is skipped; \<^verbatim>\<open>null\<close> leaves a string or bool field as it is; a value
  of another JSON type is recorded as the error to return and decoding goes on; of two
  equal keys the later one wins. The top-level \<^verbatim>\<open>null\<close> leaves the pointer nil without
  an error; any other top-level value that is not an object allocates the struct and is
  an error. Letter case is folded for ASCII letters.
\<close>

datatype field =
  F_AutoScalingGroupName
  | F_EC2InstanceId
  | F_LifecycleActionToken
  | F_LifecycleHookName
  | F_LifecycleTransition
  | F_Wait

fun fieldName :: "field \<Rightarrow> string" where
  "fieldName F_AutoScalingGroupName = ''AutoScalingGroupName''"
| "fieldName F_EC2InstanceId = ''EC2InstanceId''"
| "fieldName F_LifecycleActionToken = ''LifecycleActionToken''"
| "fieldName F_LifecycleHookName = ''LifecycleHookName''"
| "fieldName F_LifecycleTransition = ''LifecycleTransition''"
| "fieldName F_Wait = ''Wait''"

definition structFields :: "field list" where
  "structFields =
     [F_AutoScalingGroupName, F_EC2InstanceId, F_LifecycleActionToken,
      F_LifecycleHookName, F_LifecycleTransition, F_Wait]"

definition toLower :: "char \<Rightarrow> char" where
  "toLower c =
     (case map_of (zip ''ABCDEFGHIJKLMNOPQRSTUVWXYZ'' ''abcdefghijklmnopqrstuvwxyz'') c of
        Some l \<Rightarrow> l
      | None \<Rightarrow> c)"

definition equalFold :: "string \<Rightarrow> string \<Rightarrow> bool" where
  "equalFold a b = (map toLower a = map toLower b)"

definition fieldOf :: "string \<Rightarrow> field option" where
  "fieldOf key =
     (case find (\<lambda>f. fieldName f = key) structFields of
        Some f \<Rightarrow> Some f
      | None \<Rightarrow> find (\<lambda>f. equalFold (fieldName f) key) structFields)"

definition zeroDetail :: CloudWatchEventDetail where
  "zeroDetail =
     \<lparr>AutoScalingGroupName = [], EC2InstanceId = [], LifecycleActionToken = [],
      LifecycleHookName = [], LifecycleTransition = [], Wait = False\<rparr>"

fun setString :: "field \<Rightarrow> string \<Rightarrow> CloudWatchEventDetail \<Rightarrow> CloudWatchEventDetail" where
  "setString F_AutoScalingGroupName s d = d\<lparr>AutoScalingGroupName := s\<rparr>"
| "setString F_EC2InstanceId s d = d\<lparr>EC2InstanceId := s\<rparr>"
| "setString F_LifecycleActionToken s d = d\<lparr>LifecycleActionToken := s\<rparr>"
| "setString F_LifecycleHookName s d = d\<lparr>LifecycleHookName := s\<rparr>"
| "setString F_LifecycleTransition s d = d\<lparr>LifecycleTransition := s\<rparr>"
| "setString F_Wait s d = d"

definition saveError :: "error option \<Rightarrow> error option" where
  "saveError e = (case e of None \<Rightarrow> Some UnmarshalError | Some first \<Rightarrow> Some first)"

fun storeField ::
  "field \<Rightarrow> json \<Rightarrow> CloudWatchEventDetail \<times> error option
     \<Rightarrow> CloudWatchEventDetail \<times> error option" where
  "storeField f JNull (d, e) = (d, e)"
| "storeField F_Wait (JBool b) (d, e) = (d\<lparr>Wait := b\<rparr>, e)"
| "storeField F_Wait v (d, e) = (d, saveError e)"
| "storeField f (JString s) (d, e) = (setString f s d, e)"
| "storeField f v (d, e) = (d, saveError e)"

definition decodeMember ::
  "CloudWatchEventDetail \<times> error option \<Rightarrow> string \<times> json
     \<Rightarrow> CloudWatchEventDetail \<times> error option" where
  "decodeMember acc kv =
     (case fieldOf (fst kv) of
        None \<Rightarrow> acc
      | Some f \<Rightarrow> storeField f (snd kv) acc)"

fun json_Unmarshal :: "RawMessage \<Rightarrow> CloudWatchEventDetail option \<times> error option" where
  "json_Unmarshal RawNil = (None, Some UnmarshalError)"
| "json_Unmarshal RawMalformed = (None, Some UnmarshalError)"
| "json_Unmarshal (RawJSON JNull) = (None, None)"
| "json_Unmarshal (RawJSON (JObject members)) =
     (case foldl decodeMember (zeroDetail, None) members of (d, e) \<Rightarrow> (Some d, e))"
| "json_Unmarshal (RawJSON v) = (Some zeroDetail, Some UnmarshalError)"

text \<open>
  \<^verbatim>\<open>json.Marshal(evtDetail)\<close>: the struct has no field tags, so the object has its six
  fields under their Go names, in declaration order, none omitted. Strings and a bool
  always encode.
\<close>

definition json_Marshal :: "CloudWatchEventDetail \<Rightarrow> error + RawMessage" where
  "json_Marshal d =
     Inr (RawJSON (JObject
       [(''AutoScalingGroupName'', JString (AutoScalingGroupName d)),
        (''EC2InstanceId'', JString (EC2InstanceId d)),
        (''LifecycleActionToken'', JString (LifecycleActionToken d)),
        (''LifecycleHookName'', JString (LifecycleHookName d)),
        (''LifecycleTransition'', JString (LifecycleTransition d)),
        (''Wait'', JBool (Wait d))]))"

section \<open>The services called\<close>

text \<open>
  The collaborators are outside the repository: the AWS SDK clients of EC2, ECS and
  AutoScaling, and \<^verbatim>\<open>base64.StdEncoding.DecodeString\<close>. They are parameters of the
  model. A call answers as a function of its request. A paginated call hands the pages it
  received to the callback and then reports the error of the request that failed, if one
  did. Response members that the program dereferences without a check
  (\<^verbatim>\<open>Status\<close>, \<^verbatim>\<open>Ec2InstanceId\<close>, \<^verbatim>\<open>LastStatus\<close>, \<^verbatim>\<open>UserData\<close>) are taken as
  present; \<^verbatim>\<open>UserData.Value\<close>, which the program tests, may be nil.
\<close>

record ContainerInstance =
  ContainerInstanceArn :: string
  Ec2InstanceId :: string
  Status :: string

record Task =
  TaskArn :: string
  LastStatus :: string

record services =
  ec2_DescribeInstanceAttribute :: "string \<Rightarrow> string \<Rightarrow> string + string option"
  base64_DecodeString :: "string \<Rightarrow> string option"
  ecs_ListContainerInstancesPages :: "string \<Rightarrow> string list list \<times> string option"
  ecs_DescribeContainerInstances :: "string \<Rightarrow> string list \<Rightarrow> string + ContainerInstance list"
  ecs_UpdateContainerInstancesState :: "string \<Rightarrow> string list \<Rightarrow> string \<Rightarrow> string option"
  ecs_ListTasks :: "string \<Rightarrow> string \<Rightarrow> string \<Rightarrow> string + string list"
  ecs_ListTasksPages :: "string \<Rightarrow> string \<Rightarrow> string \<Rightarrow> string list list \<times> string option"
  ecs_DescribeTasks :: "string \<Rightarrow> string list \<Rightarrow> string + Task list"
  autoscaling_RecordLifecycleActionHeartbeat :: "string \<Rightarrow> string \<Rightarrow> string \<Rightarrow> string option"
  autoscaling_CompleteLifecycleAction ::
    "string \<Rightarrow> string \<Rightarrow> string \<Rightarrow> string \<Rightarrow> string option"

text \<open>The requests a run sends, in order, with the arguments the program fills in.\<close>

datatype api_call =
  DescribeInstanceAttribute string string
  | ListContainerInstancesPages string
  | DescribeContainerInstances string "string list"
  | UpdateContainerInstancesState string "string list" string
  | ListTasks string string string
  | ListTasksPages string string string
  | DescribeTasks string "string list"
  | RecordLifecycleActionHeartbeat string string string
  | CompleteLifecycleAction string string string string

text \<open>
  Modelled from the spec: the two constants of the AWS SDK that the program names and the
  repository does not declare, \<^verbatim>\<open>ec2.InstanceAttributeNameUserData\<close> (the attribute
  that holds the boot configuration) and \<^verbatim>\<open>ecs.ContainerInstanceStatusDraining\<close> (the
  status DRAINING of section 3).
\<close>

definition InstanceAttributeNameUserData :: string where
  "InstanceAttributeNameUserData = ''userData''"

definition ContainerInstanceStatusDraining :: string where
  "ContainerInstanceStatusDraining = ''DRAINING''"

section \<open>The cluster-name pattern\<close>

text \<open>
  \<^verbatim>\<open>ecsClusterRegexp = regexp.MustCompile(`\bECS_CLUSTER=([-\w]+)`)\<close>. In Go's syntax
  \<^verbatim>\<open>\w\<close> is an ASCII letter, digit or underscore and \<^verbatim>\<open>\b\<close> an ASCII word boundary.
  \<^verbatim>\<open>FindStringSubmatch\<close> gives the leftmost match with its group, the group as long
  as it can be, or no slice at all. The literal begins with a word character, so the
  boundary holds where the text starts or the byte before is not a word character.
\<close>

definition isWordChar :: "char \<Rightarrow> bool" where
  "isWordChar c =
     (c \<in> set ''0123456789ABCDEFGHIJKLMNOPQRSTUVWXYZ_abcdefghijklmnopqrstuvwxyz'')"

definition isClusterNameChar :: "char \<Rightarrow> bool" where
  "isClusterNameChar c = (c = CHR ''-'' \<or> isWordChar c)"

definition matchHere :: "string \<Rightarrow> string option" where
  "matchHere s =
     (if take 12 s = ''ECS_CLUSTER='' \<and> takeWhile isClusterNameChar (drop 12 s) \<noteq> []
      then Some (takeWhile isClusterNameChar (drop 12 s))
      else None)"

fun findSubmatch :: "bool \<Rightarrow> string \<Rightarrow> string list" where
  "findSubmatch afterWord [] = []"
| "findSubmatch afterWord (c # rest) =
     (case (if afterWord then None else matchHere (c # rest)) of
        Some name \<Rightarrow> [''ECS_CLUSTER='' @ name, name]
      | None \<Rightarrow> findSubmatch (isWordChar c) rest)"

definition ecsClusterRegexp_FindStringSubmatch :: "string \<Rightarrow> string list" where
  "ecsClusterRegexp_FindStringSubmatch s = findSubmatch False s"

section \<open>The program\<close>

text \<open>
  Every function returns its Go result together with the requests it sent. An
  \<^verbatim>\<open>(value, error)\<close> result is a sum with the error on the left; a lone
  \<^verbatim>\<open>error\<close> result is an option.
\<close>

definition logEvent :: "CloudWatchEvent \<Rightarrow> error option" where
  "logEvent evt = (case Detail evt of RawMalformed \<Rightarrow> Some MarshalError | _ \<Rightarrow> None)"

definition getUserData :: "services \<Rightarrow> string \<Rightarrow> (error + string) \<times> api_call list" where
  "getUserData env instanceID =
     (let sent = [DescribeInstanceAttribute instanceID InstanceAttributeNameUserData] in
      case ec2_DescribeInstanceAttribute env instanceID InstanceAttributeNameUserData of
        Inl err \<Rightarrow> (Inl (ServiceError err), sent)
      | Inr None \<Rightarrow> (Inl (NoUserData instanceID), sent)
      | Inr (Some v) \<Rightarrow>
          (case base64_DecodeString env v of
             None \<Rightarrow> (Inl CorruptInputError, sent)
           | Some userData \<Rightarrow> (Inr userData, sent)))"

definition getECSClusterName :: "services \<Rightarrow> string \<Rightarrow> (error + string) \<times> api_call list" where
  "getECSClusterName env instanceID =
     (case getUserData env instanceID of
        (Inl err, sent) \<Rightarrow> (Inl err, sent)
      | (Inr userData, sent) \<Rightarrow>
          (let matches = ecsClusterRegexp_FindStringSubmatch userData in
           if length matches = 0 then (Inl NoECSCluster, sent)
           else (Inr (matches ! 1), sent)))"

text \<open>The callback \<^verbatim>\<open>fn\<close> of both paginated calls: it keeps the non-empty pages.\<close>

definition fn :: "string list list \<Rightarrow> string list \<Rightarrow> string list list" where
  "fn arrayOfArns output =
     (if length output > 0 then arrayOfArns @ [output] else arrayOfArns)"

fun getContainerInstance_range ::
  "services \<Rightarrow> string \<Rightarrow> string \<Rightarrow> string list list
     \<Rightarrow> (error + ContainerInstance) \<times> api_call list" where
  "getContainerInstance_range env clusterName instanceID [] =
     (Inl (NoContainerInstance clusterName instanceID), [])"
| "getContainerInstance_range env clusterName instanceID (arns # rest) =
     (case ecs_DescribeContainerInstances env clusterName arns of
        Inl err \<Rightarrow> (Inl (ServiceError err), [DescribeContainerInstances clusterName arns])
      | Inr containerInstances \<Rightarrow>
          (case find (\<lambda>containerInstance. Ec2InstanceId containerInstance = instanceID)
                  containerInstances of
             Some containerInstance \<Rightarrow>
               (Inr containerInstance, [DescribeContainerInstances clusterName arns])
           | None \<Rightarrow>
               (case getContainerInstance_range env clusterName instanceID rest of
                  (r, sent) \<Rightarrow> (r, DescribeContainerInstances clusterName arns # sent))))"

definition getContainerInstance ::
  "services \<Rightarrow> string \<Rightarrow> string \<Rightarrow> (error + ContainerInstance) \<times> api_call list" where
  "getContainerInstance env clusterName instanceID =
     (case ecs_ListContainerInstancesPages env clusterName of
        (pages, Some err) \<Rightarrow> (Inl (ServiceError err), [ListContainerInstancesPages clusterName])
      | (pages, None) \<Rightarrow>
          (case getContainerInstance_range env clusterName instanceID (foldl fn [] pages) of
             (r, sent) \<Rightarrow> (r, ListContainerInstancesPages clusterName # sent)))"

definition setStateDraining ::
  "services \<Rightarrow> string \<Rightarrow> string \<Rightarrow> error option \<times> api_call list" where
  "setStateDraining env clusterName containerInstanceArn =
     (map_option ServiceError
        (ecs_UpdateContainerInstancesState env clusterName [containerInstanceArn]
           ContainerInstanceStatusDraining),
      [UpdateContainerInstancesState clusterName [containerInstanceArn]
         ContainerInstanceStatusDraining])"

fun taskExists_range ::
  "services \<Rightarrow> string \<Rightarrow> string list list \<Rightarrow> (error + bool) \<times> api_call list" where
  "taskExists_range env clusterName [] = (Inr False, [])"
| "taskExists_range env clusterName (arns # rest) =
     (case ecs_DescribeTasks env clusterName arns of
        Inl err \<Rightarrow> (Inl (ServiceError err), [DescribeTasks clusterName arns])
      | Inr tasks \<Rightarrow>
          (case find (\<lambda>task. LastStatus task = ''RUNNING'') tasks of
             Some task \<Rightarrow> (Inr True, [DescribeTasks clusterName arns])
           | None \<Rightarrow>
               (case taskExists_range env clusterName rest of
                  (r, sent) \<Rightarrow> (r, DescribeTasks clusterName arns # sent))))"

definition taskExists ::
  "services \<Rightarrow> string \<Rightarrow> string \<Rightarrow> (error + bool) \<times> api_call list" where
  "taskExists env clusterName containerInstanceArn =
     (case ecs_ListTasks env clusterName containerInstanceArn ''RUNNING'' of
        Inl err \<Rightarrow> (Inl (ServiceError err), [ListTasks clusterName containerInstanceArn ''RUNNING''])
      | Inr taskArns \<Rightarrow>
          if length taskArns > 0
          then (Inr True, [ListTasks clusterName containerInstanceArn ''RUNNING''])
          else
            (case ecs_ListTasksPages env clusterName containerInstanceArn ''STOPPED'' of
               (pages, Some err) \<Rightarrow>
                 (Inl (ServiceError err),
                  [ListTasks clusterName containerInstanceArn ''RUNNING'',
                   ListTasksPages clusterName containerInstanceArn ''STOPPED''])
             | (pages, None) \<Rightarrow>
                 (case taskExists_range env clusterName (foldl fn [] pages) of
                    (r, sent) \<Rightarrow>
                      (r, ListTasks clusterName containerInstanceArn ''RUNNING''
                          # ListTasksPages clusterName containerInstanceArn ''STOPPED''
                          # sent))))"

definition heartbeat ::
  "services \<Rightarrow> CloudWatchEventDetail \<Rightarrow> error option \<times> api_call list" where
  "heartbeat env detail =
     (map_option ServiceError
        (autoscaling_RecordLifecycleActionHeartbeat env (AutoScalingGroupName detail)
           (LifecycleActionToken detail) (LifecycleHookName detail)),
      [RecordLifecycleActionHeartbeat (AutoScalingGroupName detail)
         (LifecycleActionToken detail) (LifecycleHookName detail)])"

definition complete ::
  "services \<Rightarrow> CloudWatchEventDetail \<Rightarrow> error option \<times> api_call list" where
  "complete env detail =
     (map_option ServiceError
        (autoscaling_CompleteLifecycleAction env (AutoScalingGroupName detail) ''CONTINUE''
           (LifecycleActionToken detail) (LifecycleHookName detail)),
      [CompleteLifecycleAction (AutoScalingGroupName detail) ''CONTINUE''
         (LifecycleActionToken detail) (LifecycleHookName detail)])"

text \<open>
  What a run of \<^verbatim>\<open>handler\<close> leaves behind: what it returned, the event object the
  caller passed by pointer, the local \<^verbatim>\<open>evtDetail\<close> (nil until the detail is decoded)
  and the requests sent. The pointer \<^verbatim>\<open>evt\<close> is not nil, and \<^verbatim>\<open>newSession\<close>,
  which sends nothing, gives a session. Writing the log line is not a request.
\<close>

record handler_result =
  returned :: outcome
  evt_after :: CloudWatchEvent
  evtDetail_after :: "CloudWatchEventDetail option"
  calls :: "api_call list"

definition fail ::
  "error \<Rightarrow> CloudWatchEvent \<Rightarrow> CloudWatchEventDetail option \<Rightarrow> api_call list
     \<Rightarrow> handler_result" where
  "fail err evt evtDetail sent =
     \<lparr>returned = Return None (Some err), evt_after = evt, evtDetail_after = evtDetail,
      calls = sent\<rparr>"

text \<open>
  The last statements of \<^verbatim>\<open>handler\<close>, after \<^verbatim>\<open>Wait\<close> is assigned: the detail is
  encoded into \<^verbatim>\<open>evt.Detail\<close> (the assignment happens also when encoding fails, with nil
  bytes) and the event is returned.
\<close>

definition marshalBack ::
  "CloudWatchEvent \<Rightarrow> CloudWatchEventDetail \<Rightarrow> api_call list \<Rightarrow> handler_result" where
  "marshalBack evt evtDetail sent =
     (case json_Marshal evtDetail of
        Inl err \<Rightarrow> fail err (evt\<lparr>Detail := RawNil\<rparr>) (Some evtDetail) sent
      | Inr bytes \<Rightarrow>
          \<lparr>returned = Return (Some (evt\<lparr>Detail := bytes\<rparr>)) None,
           evt_after = evt\<lparr>Detail := bytes\<rparr>, evtDetail_after = Some evtDetail,
           calls = sent\<rparr>)"

definition handler :: "services \<Rightarrow> CloudWatchEvent \<Rightarrow> handler_result" where
  "handler env evt =
     (case logEvent evt of
        Some err \<Rightarrow> fail err evt None []
      | None \<Rightarrow>
     if DetailType evt \<noteq> DetailTypeTerminateLifecycle
     then fail (DetailTypeError (DetailType evt)) evt None []
     else
     (case json_Unmarshal (Detail evt) of
        (decoded, Some err) \<Rightarrow> fail err evt decoded []
      | (None, None) \<Rightarrow>
          \<lparr>returned = Panic, evt_after = evt, evtDetail_after = None, calls = []\<rparr>
      | (Some evtDetail, None) \<Rightarrow>
     if LifecycleTransition evtDetail \<noteq> LifecycleTransitionTerminating
     then fail (LifecycleTransitionError (LifecycleTransition evtDetail)) evt (Some evtDetail) []
     else
     (case getECSClusterName env (EC2InstanceId evtDetail) of
        (Inl err, s1) \<Rightarrow> fail err evt (Some evtDetail) s1
      | (Inr clusterName, s1) \<Rightarrow>
     (case getContainerInstance env clusterName (EC2InstanceId evtDetail) of
        (Inl err, s2) \<Rightarrow> fail err evt (Some evtDetail) (s1 @ s2)
      | (Inr containerInstance, s2) \<Rightarrow>
     (case (if Status containerInstance \<noteq> ContainerInstanceStatusDraining
            then setStateDraining env clusterName (ContainerInstanceArn containerInstance)
            else (None, [])) of
        (Some err, s3) \<Rightarrow> fail err evt (Some evtDetail) (s1 @ s2 @ s3)
      | (None, s3) \<Rightarrow>
     (case taskExists env clusterName (ContainerInstanceArn containerInstance) of
        (Inl err, s4) \<Rightarrow> fail err evt (Some evtDetail) (s1 @ s2 @ s3 @ s4)
      | (Inr exists, s4) \<Rightarrow>
     if exists
     then
       (case heartbeat env evtDetail of
          (Some err, s5) \<Rightarrow> fail err evt (Some evtDetail) (s1 @ s2 @ s3 @ s4 @ s5)
        | (None, s5) \<Rightarrow>
            marshalBack evt (evtDetail\<lparr>Wait := True\<rparr>) (s1 @ s2 @ s3 @ s4 @ s5))
     else
       (case complete env evtDetail of
          (Some err, s5) \<Rightarrow> fail err evt (Some evtDetail) (s1 @ s2 @ s3 @ s4 @ s5)
        | (None, s5) \<Rightarrow>
            marshalBack evt (evtDetail\<lparr>Wait := False\<rparr>) (s1 @ s2 @ s3 @ s4 @ s5))))))))"

section \<open>Vocabulary of the properties\<close>

text \<open>Kinds of request.\<close>

fun isStateChange :: "api_call \<Rightarrow> bool" where
  "isStateChange (UpdateContainerInstancesState _ _ _) = True"
| "isStateChange _ = False"

fun isHeartbeat :: "api_call \<Rightarrow> bool" where
  "isHeartbeat (RecordLifecycleActionHeartbeat _ _ _) = True"
| "isHeartbeat _ = False"

fun isComplete :: "api_call \<Rightarrow> bool" where
  "isComplete (CompleteLifecycleAction _ _ _ _) = True"
| "isComplete _ = False"

fun isECSCall :: "api_call \<Rightarrow> bool" where
  "isECSCall (DescribeInstanceAttribute _ _) = False"
| "isECSCall (RecordLifecycleActionHeartbeat _ _ _) = False"
| "isECSCall (CompleteLifecycleAction _ _ _ _) = False"
| "isECSCall _ = True"

fun isReadOnly :: "api_call \<Rightarrow> bool" where
  "isReadOnly (UpdateContainerInstancesState _ _ _) = False"
| "isReadOnly (RecordLifecycleActionHeartbeat _ _ _) = False"
| "isReadOnly (CompleteLifecycleAction _ _ _ _) = False"
| "isReadOnly _ = True"

text \<open>The event passes the checks of \<^verbatim>\<open>handler\<close> and decodes to the given detail.\<close>

definition accepted :: "CloudWatchEvent \<Rightarrow> CloudWatchEventDetail \<Rightarrow> bool" where
  "accepted evt evtDetail =
     (logEvent evt = None \<and> DetailType evt = DetailTypeTerminateLifecycle \<and>
      json_Unmarshal (Detail evt) = (Some evtDetail, None) \<and>
      LifecycleTransition evtDetail = LifecycleTransitionTerminating)"

text \<open>
  A task reports RUNNING: the query for desired status RUNNING lists a task, or a page of
  the query for desired status STOPPED holds a task whose described last status is RUNNING.
\<close>

definition taskReportsRunning :: "services \<Rightarrow> string \<Rightarrow> string \<Rightarrow> bool" where
  "taskReportsRunning env clusterName containerInstanceArn =
     ((case ecs_ListTasks env clusterName containerInstanceArn ''RUNNING'' of
         Inr taskArns \<Rightarrow> taskArns \<noteq> []
       | Inl _ \<Rightarrow> False) \<or>
      (\<exists>arns\<in>set (fst (ecs_ListTasksPages env clusterName containerInstanceArn ''STOPPED'')).
         arns \<noteq> [] \<and>
         (case ecs_DescribeTasks env clusterName arns of
            Inr tasks \<Rightarrow> \<exists>task\<in>set tasks. LastStatus task = ''RUNNING''
          | Inl _ \<Rightarrow> False)))"

text \<open>
  The pattern read from the specification's side: the text holds, after \<open>before\<close>, the
  literal \<^verbatim>\<open>ECS_CLUSTER=\<close> and then \<open>name\<close>, a non-empty run of letters, digits,
  underscores and hyphens, and the literal starts at a word boundary. The first capture
  is the \<open>name\<close> of the occurrence that starts leftmost and, there, extends furthest.
\<close>

definition patternOccurs :: "string \<Rightarrow> string \<Rightarrow> string \<Rightarrow> bool" where
  "patternOccurs userData before name =
     (prefix (before @ ''ECS_CLUSTER='' @ name) userData \<and> name \<noteq> [] \<and>
      list_all isClusterNameChar name \<and> (before = [] \<or> \<not> isWordChar (last before)))"

definition firstCapture :: "string \<Rightarrow> string \<Rightarrow> bool" where
  "firstCapture userData name =
     (\<exists>before. patternOccurs userData before name \<and>
        (\<forall>before' name'. patternOccurs userData before' name' \<longrightarrow>
           length before < length before' \<or>
           (length before = length before' \<and> length name' \<le> length name)))"

text \<open>
  An occurrence in a text that continues one whose last byte was or was not a word
  character: the boundary of an occurrence at the very start is decided by that byte.
\<close>

definition occursAfter :: "bool \<Rightarrow> string \<Rightarrow> string \<Rightarrow> string \<Rightarrow> bool" where
  "occursAfter afterWord s before name =
     (prefix (before @ ''ECS_CLUSTER='' @ name) s \<and> name \<noteq> [] \<and>
      list_all isClusterNameChar name \<and>
      (if before = [] then \<not> afterWord else \<not> isWordChar (last before)))"

text \<open>The members of an event's detail, and the frame property read literally.\<close>

definition detailMembers :: "CloudWatchEvent \<Rightarrow> (string \<times> json) list" where
  "detailMembers evt = (case Detail evt of RawJSON (JObject members) \<Rightarrow> members | _ \<Rightarrow> [])"

definition waitFlag :: "CloudWatchEvent \<Rightarrow> json option" where
  "waitFlag evt = map_of (detailMembers evt) ''Wait''"


text \<open>
  The run gets as far as the drain step: the event is accepted, the cluster name is
  resolved and the container instance is fetched.
\<close>

definition fetches ::
  "services \<Rightarrow> CloudWatchEvent \<Rightarrow> string \<Rightarrow> ContainerInstance \<Rightarrow> bool" where
  "fetches env evt clusterName containerInstance =
     (\<exists>evtDetail. accepted evt evtDetail \<and>
        fst (getECSClusterName env (EC2InstanceId evtDetail)) = Inr clusterName \<and>
        fst (getContainerInstance env clusterName (EC2InstanceId evtDetail))
          = Inr containerInstance)"

section \<open>An example invocation\<close>

text \<open>
  An instance \<^verbatim>\<open>i-1\<close> whose user data names the cluster \<^verbatim>\<open>prod-1\<close>; the cluster
  lists two container instances on two pages with an empty page between them; the
  instance is ACTIVE and has one stopped task and no running one. The base64 decoder is
  tabulated on the two encoded texts that the examples use.
\<close>

definition example_services :: services where
  "example_services =
     \<lparr>ec2_DescribeInstanceAttribute =
        (\<lambda>instanceID attribute.
           if instanceID = ''i-1''
           then Inr (Some ''ZWNobyBFQ1NfQ0xVU1RFUj1wcm9kLTEgPj4gL2V0Yy9lY3MvZWNzLmNvbmZpZw=='')
           else Inr None),
      base64_DecodeString =
        (\<lambda>s. if s = ''ZWNobyBFQ1NfQ0xVU1RFUj1wcm9kLTEgPj4gL2V0Yy9lY3MvZWNzLmNvbmZpZw==''
              then Some ''echo ECS_CLUSTER=prod-1 >> /etc/ecs/ecs.config''
              else if s = ''WEVDU19DTFVTVEVSPWEgRUNTX0NMVVNURVI9IA==''
              then Some ''XECS_CLUSTER=a ECS_CLUSTER= ''
              else None),
      ecs_ListContainerInstancesPages = (\<lambda>cluster. ([[''ci-0''], [], [''ci-1'']], None)),
      ecs_DescribeContainerInstances =
        (\<lambda>cluster arns.
           Inr (map (\<lambda>arn. \<lparr>ContainerInstanceArn = arn,
                            Ec2InstanceId = (if arn = ''ci-1'' then ''i-1'' else ''i-0''),
                            Status = ''ACTIVE''\<rparr>) arns)),
      ecs_UpdateContainerInstancesState = (\<lambda>cluster arns status. None),
      ecs_ListTasks = (\<lambda>cluster arn desired. Inr []),
      ecs_ListTasksPages = (\<lambda>cluster arn desired. ([[''t-0'']], None)),
      ecs_DescribeTasks =
        (\<lambda>cluster arns. Inr (map (\<lambda>arn. \<lparr>TaskArn = arn, LastStatus = ''STOPPED''\<rparr>) arns)),
      autoscaling_RecordLifecycleActionHeartbeat = (\<lambda>asg token hook. None),
      autoscaling_CompleteLifecycleAction = (\<lambda>asg result token hook. None)\<rparr>"

definition example_detail :: CloudWatchEventDetail where
  "example_detail =
     \<lparr>AutoScalingGroupName = ''asg'', EC2InstanceId = ''i-1'', LifecycleActionToken = ''tok'',
      LifecycleHookName = ''hook'',
      LifecycleTransition = ''autoscaling:EC2_INSTANCE_TERMINATING'', Wait = False\<rparr>"

definition example_event :: CloudWatchEvent where
  "example_event =
     \<lparr>Version = ''0'', ID = ''e-1'', DetailType = ''EC2 Instance-terminate Lifecycle Action'',
      Source = ''aws.autoscaling'', AccountID = ''123456789012'',
      Time = ''2015-12-22T18:43:48Z'', Region = ''us-east-1'', Resources = [],
      Detail = RawJSON (JObject
        [(''LifecycleActionToken'', JString ''tok''),
         (''AutoScalingGroupName'', JString ''asg''),
         (''LifecycleHookName'', JString ''hook''),
         (''EC2InstanceId'', JString ''i-1''),
         (''LifecycleTransition'', JString ''autoscaling:EC2_INSTANCE_TERMINATING''),
         (''NotificationMetadata'', JString ''additional-info'')])\<rparr>"

text \<open>The same services when the instance still runs a task, and when it is draining already.\<close>

definition busy_services :: services where
  "busy_services = example_services\<lparr>ecs_ListTasks := (\<lambda>cluster arn desired. Inr [''t-9''])\<rparr>"

definition draining_services :: services where
  "draining_services =
     example_services\<lparr>ecs_DescribeContainerInstances :=
        (\<lambda>cluster arns.
           Inr (map (\<lambda>arn. \<lparr>ContainerInstanceArn = arn,
                            Ec2InstanceId = (if arn = ''ci-1'' then ''i-1'' else ''i-0''),
                            Status = ''DRAINING''\<rparr>) arns))\<rparr>"


definition example_output :: CloudWatchEvent where
  "example_output =
     example_event\<lparr>Detail := RawJSON (JObject
        [(''AutoScalingGroupName'', JString ''asg''),
         (''EC2InstanceId'', JString ''i-1''),
         (''LifecycleActionToken'', JString ''tok''),
         (''LifecycleHookName'', JString ''hook''),
         (''LifecycleTransition'', JString ''autoscaling:EC2_INSTANCE_TERMINATING''),
         (''Wait'', JBool False)])\<rparr>"

definition throttled_services :: services where
  "throttled_services =
     busy_services\<lparr>autoscaling_RecordLifecycleActionHeartbeat :=
        (\<lambda>asg token hook. Some ''Throttling'')\<rparr>"

definition bare_services :: services where
  "bare_services =
     example_services\<lparr>ec2_DescribeInstanceAttribute := (\<lambda>instanceID attribute. Inr None)\<rparr>"

definition garbled_services :: services where
  "garbled_services =
     example_services\<lparr>ec2_DescribeInstanceAttribute :=
        (\<lambda>instanceID attribute. Inr (Some ''not base64!''))\<rparr>"

text \<open>Services whose description of the stopped task still says RUNNING.\<close>

definition lagging_services :: services where
  "lagging_services =
     example_services\<lparr>ecs_DescribeTasks :=
        (\<lambda>cluster arns. Inr (map (\<lambda>arn. \<lparr>TaskArn = arn, LastStatus = ''RUNNING''\<rparr>) arns))\<rparr>"

text \<open>Services whose instance has user data without a cluster name.\<close>

definition untagged_services :: services where
  "untagged_services =
     example_services\<lparr>ec2_DescribeInstanceAttribute :=
        (\<lambda>instanceID attribute. Inr (Some ''WEVDU19DTFVTVEVSPWEgRUNTX0NMVVNURVI9IA==''))\<rparr>"

section \<open>The course of a run\<close>

lemma foldl_fn: "foldl fn acc pages = acc @ filter (\<lambda>arns. arns \<noteq> []) pages"
  by (induction pages arbitrary: acc) (simp_all add: fn_def)

lemma json_Marshal_total:
  "json_Marshal d =
     Inr (RawJSON (JObject
       [(''AutoScalingGroupName'', JString (AutoScalingGroupName d)),
        (''EC2InstanceId'', JString (EC2InstanceId d)),
        (''LifecycleActionToken'', JString (LifecycleActionToken d)),
        (''LifecycleHookName'', JString (LifecycleHookName d)),
        (''LifecycleTransition'', JString (LifecycleTransition d)),
        (''Wait'', JBool (Wait d))]))"
  by (simp add: json_Marshal_def)

text \<open>
  A run of \<^verbatim>\<open>handler\<close> ends at one of eleven places: ten early exits and the return
  of the event. The rule names them and gives, for each, what was computed on the way.
\<close>

lemma handler_cases [case_names LogFail BadDetailType BadDetail NilDetail BadTransition
    NoCluster NoInstance DrainFail TaskFail SignalFail Done]:
  obtains
    (LogFail) err where "logEvent evt = Some err" "handler env evt = fail err evt None []"
  | (BadDetailType) "logEvent evt = None" "DetailType evt \<noteq> DetailTypeTerminateLifecycle"
      "handler env evt = fail (DetailTypeError (DetailType evt)) evt None []"
  | (BadDetail) decoded err where "logEvent evt = None"
      "DetailType evt = DetailTypeTerminateLifecycle"
      "json_Unmarshal (Detail evt) = (decoded, Some err)"
      "handler env evt = fail err evt decoded []"
  | (NilDetail) "logEvent evt = None" "DetailType evt = DetailTypeTerminateLifecycle"
      "json_Unmarshal (Detail evt) = (None, None)"
      "handler env evt =
         \<lparr>returned = Panic, evt_after = evt, evtDetail_after = None, calls = []\<rparr>"
  | (BadTransition) d where "logEvent evt = None"
      "DetailType evt = DetailTypeTerminateLifecycle"
      "json_Unmarshal (Detail evt) = (Some d, None)"
      "LifecycleTransition d \<noteq> LifecycleTransitionTerminating"
      "handler env evt = fail (LifecycleTransitionError (LifecycleTransition d)) evt (Some d) []"
  | (NoCluster) d err s1 where "accepted evt d"
      "getECSClusterName env (EC2InstanceId d) = (Inl err, s1)"
      "handler env evt = fail err evt (Some d) s1"
  | (NoInstance) d cl s1 err s2 where "accepted evt d"
      "getECSClusterName env (EC2InstanceId d) = (Inr cl, s1)"
      "getContainerInstance env cl (EC2InstanceId d) = (Inl err, s2)"
      "handler env evt = fail err evt (Some d) (s1 @ s2)"
  | (DrainFail) d cl s1 ci s2 err s3 where "accepted evt d"
      "getECSClusterName env (EC2InstanceId d) = (Inr cl, s1)"
      "getContainerInstance env cl (EC2InstanceId d) = (Inr ci, s2)"
      "Status ci \<noteq> ContainerInstanceStatusDraining"
      "setStateDraining env cl (ContainerInstanceArn ci) = (Some err, s3)"
      "handler env evt = fail err evt (Some d) (s1 @ s2 @ s3)"
  | (TaskFail) d cl s1 ci s2 s3 err s4 where "accepted evt d"
      "getECSClusterName env (EC2InstanceId d) = (Inr cl, s1)"
      "getContainerInstance env cl (EC2InstanceId d) = (Inr ci, s2)"
      "(if Status ci \<noteq> ContainerInstanceStatusDraining
        then setStateDraining env cl (ContainerInstanceArn ci) else (None, [])) = (None, s3)"
      "taskExists env cl (ContainerInstanceArn ci) = (Inl err, s4)"
      "handler env evt = fail err evt (Some d) (s1 @ s2 @ s3 @ s4)"
  | (SignalFail) d cl s1 ci s2 s3 ex s4 err s5 where "accepted evt d"
      "getECSClusterName env (EC2InstanceId d) = (Inr cl, s1)"
      "getContainerInstance env cl (EC2InstanceId d) = (Inr ci, s2)"
      "(if Status ci \<noteq> ContainerInstanceStatusDraining
        then setStateDraining env cl (ContainerInstanceArn ci) else (None, [])) = (None, s3)"
      "taskExists env cl (ContainerInstanceArn ci) = (Inr ex, s4)"
      "(if ex then heartbeat env d else complete env d) = (Some err, s5)"
      "handler env evt = fail err evt (Some d) (s1 @ s2 @ s3 @ s4 @ s5)"
  | (Done) d cl s1 ci s2 s3 ex s4 s5 where "accepted evt d"
      "getECSClusterName env (EC2InstanceId d) = (Inr cl, s1)"
      "getContainerInstance env cl (EC2InstanceId d) = (Inr ci, s2)"
      "(if Status ci \<noteq> ContainerInstanceStatusDraining
        then setStateDraining env cl (ContainerInstanceArn ci) else (None, [])) = (None, s3)"
      "taskExists env cl (ContainerInstanceArn ci) = (Inr ex, s4)"
      "(if ex then heartbeat env d else complete env d) = (None, s5)"
      "handler env evt = marshalBack evt (d\<lparr>Wait := ex\<rparr>) (s1 @ s2 @ s3 @ s4 @ s5)"
proof (cases "logEvent evt")
  case (Some err)
  then show thesis using LogFail by (simp add: handler_def)
next
  case log: None
  show thesis
  proof (cases "DetailType evt = DetailTypeTerminateLifecycle")
    case False
    with log show thesis using BadDetailType by (simp add: handler_def)
  next
    case dt: True
    obtain decoded uerr where u: "json_Unmarshal (Detail evt) = (decoded, uerr)"
      by (cases "json_Unmarshal (Detail evt)")
    show thesis
    proof (cases uerr)
      case (Some err)
      with log dt u show thesis using BadDetail
        by (cases decoded) (simp_all add: handler_def)
    next
      case ue: None
      show thesis
      proof (cases decoded)
        case None
        with log dt u ue show thesis using NilDetail by (simp add: handler_def)
      next
        case (Some d)
        note dd = this
        show thesis
        proof (cases "LifecycleTransition d = LifecycleTransitionTerminating")
          case False
          with log dt u ue dd show thesis using BadTransition by (simp add: handler_def)
        next
          case lt: True
          from log dt u ue dd lt have acc: "accepted evt d" by (simp add: accepted_def)
          obtain r1 s1 where g1: "getECSClusterName env (EC2InstanceId d) = (r1, s1)"
            by (cases "getECSClusterName env (EC2InstanceId d)")
          show thesis
          proof (cases r1)
            case (Inl err)
            with log dt u ue dd lt g1 show thesis using NoCluster [OF acc]
              by (simp add: handler_def)
          next
            case (Inr cl)
            note c1 = this
            obtain r2 s2 where g2: "getContainerInstance env cl (EC2InstanceId d) = (r2, s2)"
              by (cases "getContainerInstance env cl (EC2InstanceId d)")
            show thesis
            proof (cases r2)
              case (Inl err)
              with log dt u ue dd lt g1 c1 g2 show thesis using NoInstance [OF acc]
                by (simp add: handler_def)
            next
              case (Inr ci)
              note c2 = this
              obtain r3 s3 where g3:
                "(if Status ci \<noteq> ContainerInstanceStatusDraining
                  then setStateDraining env cl (ContainerInstanceArn ci) else (None, []))
                 = (r3, s3)"
                by (cases "if Status ci \<noteq> ContainerInstanceStatusDraining
                  then setStateDraining env cl (ContainerInstanceArn ci) else (None, [])")
              show thesis
              proof (cases r3)
                case (Some err)
                with g3 have ne: "Status ci \<noteq> ContainerInstanceStatusDraining"
                  by (auto split: if_splits)
                with g3 Some have
                  "setStateDraining env cl (ContainerInstanceArn ci) = (Some err, s3)"
                  by simp
                with log dt u ue dd lt g1 c1 g2 c2 ne show thesis using DrainFail [OF acc]
                  by (simp add: handler_def)
              next
                case c3: None
                obtain r4 s4 where g4: "taskExists env cl (ContainerInstanceArn ci) = (r4, s4)"
                  by (cases "taskExists env cl (ContainerInstanceArn ci)")
                show thesis
                proof (cases r4)
                  case (Inl err)
                  with log dt u ue dd lt g1 c1 g2 c2 g3 c3 g4 show thesis
                    using TaskFail [OF acc] by (simp add: handler_def)
                next
                  case (Inr ex)
                  note c4 = this
                  obtain r5 s5 where g5:
                    "(if ex then heartbeat env d else complete env d) = (r5, s5)"
                    by (cases "if ex then heartbeat env d else complete env d")
                  show thesis
                  proof (cases r5)
                    case (Some err)
                    with log dt u ue dd lt g1 c1 g2 c2 g3 c3 g4 c4 g5 show thesis
                      using SignalFail [OF acc]
                      by (cases ex) (simp_all add: handler_def)
                  next
                    case None
                    with log dt u ue dd lt g1 c1 g2 c2 g3 c3 g4 c4 g5 show thesis
                      using Done [OF acc]
                      by (cases ex) (simp_all add: handler_def)
                  qed
                qed
              qed
            qed
          qed
        qed
      qed
    qed
  qed
qed

text \<open>What each function sends.\<close>

lemma getUserData_calls:
  "snd (getUserData env instanceID) =
     [DescribeInstanceAttribute instanceID InstanceAttributeNameUserData]"
  by (simp add: getUserData_def Let_def split: sum.splits option.splits)

lemma getECSClusterName_calls:
  "snd (getECSClusterName env instanceID) =
     [DescribeInstanceAttribute instanceID InstanceAttributeNameUserData]"
  using getUserData_calls [of env instanceID]
  by (cases "getUserData env instanceID")
     (simp add: getECSClusterName_def Let_def split: sum.splits)

lemma getContainerInstance_range_calls:
  "list_all isReadOnly (snd (getContainerInstance_range env clusterName instanceID pages))"
  by (induction pages) (simp_all add: split_beta split: sum.splits option.splits)

lemma getContainerInstance_calls:
  "list_all isReadOnly (snd (getContainerInstance env clusterName instanceID))"
  using getContainerInstance_range_calls
  by (simp add: getContainerInstance_def split_beta split: prod.splits option.splits)

lemma taskExists_range_calls:
  "list_all isReadOnly (snd (taskExists_range env clusterName pages))"
  by (induction pages) (simp_all add: split_beta split: sum.splits option.splits)

lemma taskExists_calls:
  "list_all isReadOnly (snd (taskExists env clusterName containerInstanceArn))"
  using taskExists_range_calls
  by (simp add: taskExists_def split_beta split: sum.splits prod.splits option.splits)

lemma readOnly_filters:
  assumes "list_all isReadOnly sent"
  shows "filter isStateChange sent = []" "filter isHeartbeat sent = []"
    "filter isComplete sent = []"
proof -
  have "\<And>c. isReadOnly c \<Longrightarrow> \<not> isStateChange c \<and> \<not> isHeartbeat c \<and> \<not> isComplete c"
    by (case_tac c) simp_all
  with assms show "filter isStateChange sent = []" "filter isHeartbeat sent = []"
    "filter isComplete sent = []"
    by (simp_all add: list_all_iff filter_empty_conv)
qed

text \<open>The errors of the two JSON steps.\<close>

lemma logEvent_error: "logEvent evt = Some err \<Longrightarrow> err = MarshalError"
  by (simp add: logEvent_def split: RawMessage.splits)

lemma storeField_error:
  "snd acc \<in> {None, Some UnmarshalError} \<Longrightarrow>
   snd (storeField f v acc) \<in> {None, Some UnmarshalError}"
  by (cases "(f, v, acc)" rule: storeField.cases) (auto simp: saveError_def)

lemma decodeMember_error:
  "snd acc \<in> {None, Some UnmarshalError} \<Longrightarrow>
   snd (decodeMember acc kv) \<in> {None, Some UnmarshalError}"
  using storeField_error by (simp add: decodeMember_def split: option.splits)

lemma foldl_decodeMember_error:
  "snd acc \<in> {None, Some UnmarshalError} \<Longrightarrow>
   snd (foldl decodeMember acc members) \<in> {None, Some UnmarshalError}"
proof (induction members arbitrary: acc)
  case Nil
  then show ?case by simp
next
  case (Cons kv rest)
  have "snd (decodeMember acc kv) \<in> {None, Some UnmarshalError}"
    using Cons.prems by (rule decodeMember_error)
  from Cons.IH [OF this] show ?case by simp
qed

lemma json_Unmarshal_error:
  assumes "json_Unmarshal raw = (decoded, Some err)"
  shows "err = UnmarshalError"
proof (cases raw)
  case RawNil
  with assms show ?thesis by simp
next
  case RawMalformed
  with assms show ?thesis by simp
next
  case (RawJSON v)
  show ?thesis
  proof (cases v)
    case (JObject members)
    have "snd (foldl decodeMember (zeroDetail, None) members) \<in> {None, Some UnmarshalError}"
      by (rule foldl_decodeMember_error) simp
    with assms RawJSON JObject show ?thesis
      by (auto split: prod.splits)
  qed (use assms RawJSON in simp_all)
qed

text \<open>When \<^verbatim>\<open>taskExists\<close> returns a boolean, it is whether a task reports RUNNING.\<close>

lemma taskExists_range_result:
  assumes "fst (taskExists_range env clusterName pages) = Inr b"
  shows "b = (\<exists>arns\<in>set pages.
               case ecs_DescribeTasks env clusterName arns of
                 Inr tasks \<Rightarrow> \<exists>task\<in>set tasks. LastStatus task = ''RUNNING''
               | Inl _ \<Rightarrow> False)"
  using assms
proof (induction pages)
  case Nil
  then show ?case by simp
next
  case (Cons arns rest)
  show ?case
  proof (cases "ecs_DescribeTasks env clusterName arns")
    case (Inl err)
    with Cons.prems show ?thesis by simp
  next
    case (Inr tasks)
    show ?thesis
    proof (cases "find (\<lambda>task. LastStatus task = ''RUNNING'') tasks")
      case None
      then have "\<not> (\<exists>task\<in>set tasks. LastStatus task = ''RUNNING'')"
        by (simp add: find_None_iff)
      with Cons Inr None show ?thesis by (simp add: split_beta)
    next
      case (Some task)
      then have "\<exists>task\<in>set tasks. LastStatus task = ''RUNNING''"
        by (auto simp: find_Some_iff)
      with Cons.prems Inr Some show ?thesis by simp
    qed
  qed
qed

lemma taskExists_result:
  assumes "fst (taskExists env clusterName containerInstanceArn) = Inr b"
  shows "b = taskReportsRunning env clusterName containerInstanceArn"
proof (cases "ecs_ListTasks env clusterName containerInstanceArn ''RUNNING''")
  case (Inl err)
  with assms show ?thesis by (simp add: taskExists_def)
next
  case (Inr taskArns)
  show ?thesis
  proof (cases "taskArns = []")
    case False
    with assms Inr show ?thesis by (auto simp: taskExists_def taskReportsRunning_def)
  next
    case True
    obtain pages perr where p:
      "ecs_ListTasksPages env clusterName containerInstanceArn ''STOPPED'' = (pages, perr)"
      by (cases "ecs_ListTasksPages env clusterName containerInstanceArn ''STOPPED''")
    show ?thesis
    proof (cases perr)
      case (Some err)
      with assms Inr True p show ?thesis by (simp add: taskExists_def)
    next
      case None
      with assms Inr True p have
        "fst (taskExists_range env clusterName (filter (\<lambda>arns. arns \<noteq> []) pages)) = Inr b"
        by (simp add: taskExists_def foldl_fn split_beta)
      from taskExists_range_result [OF this] Inr True p show ?thesis
        by (auto simp: taskReportsRunning_def)
    qed
  qed
qed

section \<open>The claims about the handler\<close>



text \<open>
  C10. When \<^verbatim>\<open>handler\<close> returns an error it returns no event, the event object of the
  caller is as it was, and the decoded detail, if there is one, is as decoded:
  \<^verbatim>\<open>Wait\<close> is assigned only after the heartbeat or the completion succeeded.
\<close>

theorem handler_error_leaves_event:
  assumes "returned (handler env evt) = Return r (Some err)"
  shows "r = None \<and> evt_after (handler env evt) = evt \<and>
         evtDetail_after (handler env evt) \<in> {None, fst (json_Unmarshal (Detail evt))}"
proof (cases rule: handler_cases [of evt env])
  case (Done d cl s1 ci s2 s3 ex s4 s5)
  with assms show ?thesis by (simp add: marshalBack_def json_Marshal_total)
next
  case NilDetail
  with assms show ?thesis by simp
qed (use assms in \<open>simp_all add: fail_def accepted_def\<close>)

theorem handler_error_leaves_event_witness:
  "returned (handler throttled_services example_event)
     = Return None (Some (ServiceError ''Throttling'')) \<and>
   evt_after (handler throttled_services example_event) = example_event \<and>
   evtDetail_after (handler throttled_services example_event) = Some example_detail \<and>
   fst (json_Unmarshal (Detail example_event)) = Some example_detail"
proof -
  have r: "returned (handler throttled_services example_event)
             = Return None (Some (ServiceError ''Throttling''))"
    by code_simp
  have u: "fst (json_Unmarshal (Detail example_event)) = Some example_detail"
    by code_simp
  have e: "evtDetail_after (handler throttled_services example_event) \<noteq> None"
    by code_simp
  from handler_error_leaves_event [OF r] u e show ?thesis
    using r by auto
qed

text \<open>
  C8. When the attribute lookup for the event's instance answers without a user-data
  value, or with a value that does not decode as base64, \<^verbatim>\<open>handler\<close> returns an
  error and has sent no request to ECS; \<^verbatim>\<open>getECSClusterName\<close> hands on the error of
  \<^verbatim>\<open>getUserData\<close> and does not report a missing pattern.
\<close>

theorem handler_without_user_data:
  assumes "fst (json_Unmarshal (Detail evt)) = Some evtDetail"
    and "ec2_DescribeInstanceAttribute env (EC2InstanceId evtDetail)
           InstanceAttributeNameUserData = Inr None \<or>
         (\<exists>v. ec2_DescribeInstanceAttribute env (EC2InstanceId evtDetail)
                 InstanceAttributeNameUserData = Inr (Some v) \<and>
              base64_DecodeString env v = None)"
  shows "\<exists>err. returned (handler env evt) = Return None (Some err) \<and>
           err \<noteq> NoECSCluster \<and>
           list_all (\<lambda>c. \<not> isECSCall c) (calls (handler env evt)) \<and>
           fst (getECSClusterName env (EC2InstanceId evtDetail)) \<in>
             {Inl (NoUserData (EC2InstanceId evtDetail)), Inl CorruptInputError}"
proof -
  have g: "fst (getECSClusterName env (EC2InstanceId evtDetail)) \<in>
             {Inl (NoUserData (EC2InstanceId evtDetail)), Inl CorruptInputError}"
    using assms(2) by (auto simp: getECSClusterName_def getUserData_def)
  have same: "d = evtDetail" if "accepted evt d" for d
    using that assms(1) by (simp add: accepted_def)
  show ?thesis
  proof (cases rule: handler_cases [of evt env])
    case (LogFail err)
    with logEvent_error [OF LogFail(1)] g show ?thesis by (simp add: fail_def)
  next
    case BadDetailType
    with g show ?thesis by (simp add: fail_def)
  next
    case (BadDetail decoded err)
    with json_Unmarshal_error [OF BadDetail(3)] g show ?thesis by (simp add: fail_def)
  next
    case NilDetail
    with assms(1) show ?thesis by simp
  next
    case (BadTransition d)
    with g show ?thesis by (simp add: fail_def)
  next
    case (NoCluster d err s1)
    from same [OF NoCluster(1)] NoCluster(2) g getECSClusterName_calls [of env "EC2InstanceId d"]
    have "err \<noteq> NoECSCluster" "s1 = [DescribeInstanceAttribute (EC2InstanceId d)
      InstanceAttributeNameUserData]"
      by auto
    with NoCluster g show ?thesis by (simp add: fail_def)
  next
    case (NoInstance d cl s1 err s2)
    with same [OF NoInstance(1)] g show ?thesis by simp
  next
    case (DrainFail d cl s1 ci s2 err s3)
    with same [OF DrainFail(1)] g show ?thesis by simp
  next
    case (TaskFail d cl s1 ci s2 s3 err s4)
    with same [OF TaskFail(1)] g show ?thesis by simp
  next
    case (SignalFail d cl s1 ci s2 s3 ex s4 err s5)
    with same [OF SignalFail(1)] g show ?thesis by simp
  next
    case (Done d cl s1 ci s2 s3 ex s4 s5)
    with same [OF Done(1)] g show ?thesis by simp
  qed
qed

theorem handler_without_user_data_witness:
  "returned (handler bare_services example_event) = Return None (Some (NoUserData ''i-1'')) \<and>
   calls (handler bare_services example_event) = [DescribeInstanceAttribute ''i-1'' ''userData''] \<and>
   returned (handler garbled_services example_event) = Return None (Some CorruptInputError) \<and>
   calls (handler garbled_services example_event)
     = [DescribeInstanceAttribute ''i-1'' ''userData'']"
proof -
  have u: "fst (json_Unmarshal (Detail example_event)) = Some example_detail"
    by code_simp
  have bare: "ec2_DescribeInstanceAttribute bare_services (EC2InstanceId example_detail)
                InstanceAttributeNameUserData = Inr None"
    by code_simp
  have garbled: "ec2_DescribeInstanceAttribute garbled_services (EC2InstanceId example_detail)
                   InstanceAttributeNameUserData = Inr (Some ''not base64!'') \<and>
                 base64_DecodeString garbled_services ''not base64!'' = None"
    by code_simp
  have c1: "calls (handler bare_services example_event)
              = [DescribeInstanceAttribute ''i-1'' ''userData'']"
    by code_simp
  have c2: "calls (handler garbled_services example_event)
              = [DescribeInstanceAttribute ''i-1'' ''userData'']"
    by code_simp
  have g1: "fst (getECSClusterName bare_services (EC2InstanceId example_detail))
              = Inl (NoUserData ''i-1'')"
    by code_simp
  have r1: "returned (handler bare_services example_event)
              = Return None (Some (NoUserData ''i-1''))"
    by code_simp
  have r2: "returned (handler garbled_services example_event)
              = Return None (Some CorruptInputError)"
    by code_simp
  from handler_without_user_data [OF u disjI1, OF bare]
    handler_without_user_data [OF u disjI2, OF exI, OF garbled]
  show ?thesis using c1 c2 r1 r2 by simp
qed

text \<open>
  C9. When the query for desired status RUNNING answers with a non-empty page,
  \<^verbatim>\<open>taskExists\<close> returns true and has sent that one request: neither the query for
  desired status STOPPED nor a description of tasks.
\<close>

theorem taskExists_short_circuit:
  assumes "ecs_ListTasks env clusterName containerInstanceArn ''RUNNING'' = Inr taskArns"
    and "taskArns \<noteq> []"
  shows "fst (taskExists env clusterName containerInstanceArn) = Inr True \<and>
         snd (taskExists env clusterName containerInstanceArn)
           = [ListTasks clusterName containerInstanceArn ''RUNNING''] \<and>
         ListTasksPages clusterName containerInstanceArn ''STOPPED''
           \<notin> set (snd (taskExists env clusterName containerInstanceArn)) \<and>
         (\<forall>arns. DescribeTasks clusterName arns
           \<notin> set (snd (taskExists env clusterName containerInstanceArn)))"
  using assms by (simp add: taskExists_def)

theorem taskExists_short_circuit_witness:
  "ecs_ListTasks busy_services ''prod-1'' ''ci-1'' ''RUNNING'' = Inr [''t-9''] \<and>
   taskExists busy_services ''prod-1'' ''ci-1''
     = (Inr True, [ListTasks ''prod-1'' ''ci-1'' ''RUNNING''])"
proof -
  have l: "ecs_ListTasks busy_services ''prod-1'' ''ci-1'' ''RUNNING'' = Inr [''t-9'']"
    by code_simp
  have n: "[''t-9''] \<noteq> []" by simp
  from taskExists_short_circuit [OF l n] l show ?thesis
    by (simp add: prod_eq_iff)
qed

text \<open>
  C4. In a run that fetches a container instance, \<^verbatim>\<open>handler\<close> sends no
  \<^verbatim>\<open>UpdateContainerInstancesState\<close> when the fetched status is DRAINING and exactly
  one, for that instance and with status DRAINING, otherwise. Two runs that both fetch a
  draining instance send none between them.
\<close>

theorem handler_drains_once:
  assumes "fetches env evt clusterName containerInstance"
  shows "filter isStateChange (calls (handler env evt)) =
           (if Status containerInstance = ''DRAINING'' then []
            else [UpdateContainerInstancesState clusterName
                    [ContainerInstanceArn containerInstance] ''DRAINING'']) \<and>
         (\<forall>env' evt' clusterName' containerInstance'.
            fetches env' evt' clusterName' containerInstance' \<and>
            Status containerInstance = ''DRAINING'' \<and>
            Status containerInstance' = ''DRAINING'' \<longrightarrow>
            filter isStateChange (calls (handler env evt) @ calls (handler env' evt')) = [])"
proof -
  have one: "filter isStateChange (calls (handler env evt)) =
           (if Status ci = ''DRAINING'' then []
            else [UpdateContainerInstancesState cl [ContainerInstanceArn ci] ''DRAINING''])"
    if f: "fetches env evt cl ci" for env evt cl ci
  proof -
    from f obtain evtDetail where acc: "accepted evt evtDetail"
      and g1: "fst (getECSClusterName env (EC2InstanceId evtDetail)) = Inr cl"
      and g2: "fst (getContainerInstance env cl (EC2InstanceId evtDetail)) = Inr ci"
      by (auto simp: fetches_def)
    have same: "d = evtDetail" if "accepted evt d" for d
      using that acc by (simp add: accepted_def)
    have rejected: False if "logEvent evt \<noteq> None \<or>
        DetailType evt \<noteq> DetailTypeTerminateLifecycle \<or>
        snd (json_Unmarshal (Detail evt)) \<noteq> None \<or>
        fst (json_Unmarshal (Detail evt)) = None \<or>
        (\<exists>d. json_Unmarshal (Detail evt) = (Some d, None) \<and>
          LifecycleTransition d \<noteq> LifecycleTransitionTerminating)"
      using that acc by (auto simp: accepted_def)
    have q1: "filter isStateChange (snd (getECSClusterName env i)) = []" for i
      by (simp add: getECSClusterName_calls)
    have q2: "filter isStateChange (snd (getContainerInstance env c i)) = []" for c i
      by (rule readOnly_filters) (rule getContainerInstance_calls)
    have q4: "filter isStateChange (snd (taskExists env c a)) = []" for c a
      by (rule readOnly_filters) (rule taskExists_calls)
    have q5: "filter isStateChange (snd (if ex then heartbeat env d else complete env d)) = []"
      for ex d
      by (simp add: heartbeat_def complete_def)
    have q3: "filter isStateChange s3 =
        (if Status ci = ''DRAINING'' then []
         else [UpdateContainerInstancesState cl [ContainerInstanceArn ci] ''DRAINING''])"
      if "(if Status ci \<noteq> ContainerInstanceStatusDraining
           then setStateDraining env cl (ContainerInstanceArn ci) else (None, [])) = (r3, s3)"
      for r3 s3
      using that
      by (auto simp: setStateDraining_def ContainerInstanceStatusDraining_def split: if_splits)
    show ?thesis
    proof (cases rule: handler_cases [of evt env])
      case (LogFail err)
      with rejected show ?thesis by simp
    next
      case BadDetailType
      with rejected show ?thesis by simp
    next
      case (BadDetail decoded err)
      with rejected show ?thesis by simp
    next
      case NilDetail
      with rejected show ?thesis by simp
    next
      case (BadTransition d)
      with rejected show ?thesis by blast
    next
      case (NoCluster d err s1)
      with same [OF NoCluster(1)] g1 show ?thesis by simp
    next
      case (NoInstance d cl' s1 err s2)
      with same [OF NoInstance(1)] g1 g2 show ?thesis by simp
    next
      case (DrainFail d cl' s1 ci' s2 err s3)
      from same [OF DrainFail(1)] DrainFail g1 g2 have e: "cl' = cl" "ci' = ci" by simp_all
      from DrainFail(4,5) have
        "(if Status ci' \<noteq> ContainerInstanceStatusDraining
          then setStateDraining env cl' (ContainerInstanceArn ci') else (None, []))
         = (Some err, s3)"
        by simp
      from q3 [OF this [unfolded e]] DrainFail(2,3,6) q1 [of "EC2InstanceId d"]
        q2 [of cl' "EC2InstanceId d"]
      show ?thesis by (simp add: fail_def)
    next
      case (TaskFail d cl' s1 ci' s2 s3 err s4)
      from same [OF TaskFail(1)] TaskFail g1 g2 have e: "cl' = cl" "ci' = ci" by simp_all
      from q3 [OF TaskFail(4) [unfolded e]] TaskFail(2,3,5,6) q1 [of "EC2InstanceId d"]
        q2 [of cl' "EC2InstanceId d"] q4 [of cl' "ContainerInstanceArn ci'"]
      show ?thesis by (simp add: fail_def)
    next
      case (SignalFail d cl' s1 ci' s2 s3 ex s4 err s5)
      from same [OF SignalFail(1)] SignalFail g1 g2 have e: "cl' = cl" "ci' = ci" by simp_all
      from q3 [OF SignalFail(4) [unfolded e]] SignalFail(2,3,5,6,7) q1 [of "EC2InstanceId d"]
        q2 [of cl' "EC2InstanceId d"] q4 [of cl' "ContainerInstanceArn ci'"] q5 [of ex d]
      show ?thesis by (simp add: fail_def)
    next
      case (Done d cl' s1 ci' s2 s3 ex s4 s5)
      from same [OF Done(1)] Done g1 g2 have e: "cl' = cl" "ci' = ci" by simp_all
      from q3 [OF Done(4) [unfolded e]] Done(2,3,5,6,7) q1 [of "EC2InstanceId d"]
        q2 [of cl' "EC2InstanceId d"] q4 [of cl' "ContainerInstanceArn ci'"] q5 [of ex d]
      show ?thesis by (simp add: marshalBack_def json_Marshal_total)
    qed
  qed
  from one [OF assms] one show ?thesis by auto
qed

theorem handler_drains_once_witness:
  "fetches example_services example_event ''prod-1''
     \<lparr>ContainerInstanceArn = ''ci-1'', Ec2InstanceId = ''i-1'', Status = ''ACTIVE''\<rparr> \<and>
   filter isStateChange (calls (handler example_services example_event))
     = [UpdateContainerInstancesState ''prod-1'' [''ci-1''] ''DRAINING''] \<and>
   fetches draining_services example_event ''prod-1''
     \<lparr>ContainerInstanceArn = ''ci-1'', Ec2InstanceId = ''i-1'', Status = ''DRAINING''\<rparr> \<and>
   filter isStateChange (calls (handler draining_services example_event)
     @ calls (handler draining_services example_output)) = []"
proof -
  have a: "accepted example_event example_detail" "accepted example_output example_detail"
    unfolding accepted_def by code_simp+
  have f1: "fetches example_services example_event ''prod-1''
     \<lparr>ContainerInstanceArn = ''ci-1'', Ec2InstanceId = ''i-1'', Status = ''ACTIVE''\<rparr>"
    unfolding fetches_def
    by (rule exI [of _ example_detail], intro conjI, rule a(1)) code_simp+
  have f2: "fetches draining_services example_event ''prod-1''
     \<lparr>ContainerInstanceArn = ''ci-1'', Ec2InstanceId = ''i-1'', Status = ''DRAINING''\<rparr>"
    unfolding fetches_def
    by (rule exI [of _ example_detail], intro conjI, rule a(1)) code_simp+
  have f3: "fetches draining_services example_output ''prod-1''
     \<lparr>ContainerInstanceArn = ''ci-1'', Ec2InstanceId = ''i-1'', Status = ''DRAINING''\<rparr>"
    unfolding fetches_def
    by (rule exI [of _ example_detail], intro conjI, rule a(2)) code_simp+
  have two: "filter isStateChange (calls (handler draining_services example_event)
     @ calls (handler draining_services example_output)) = []"
    using handler_drains_once [OF f2, THEN conjunct2, rule_format, of draining_services
        example_output "''prod-1''"
        "\<lparr>ContainerInstanceArn = ''ci-1'', Ec2InstanceId = ''i-1'', Status = ''DRAINING''\<rparr>"] f3
    by simp
  from handler_drains_once [OF f1] f1 f2 two show ?thesis
    by simp
qed

text \<open>What a run that returns an event went through.\<close>

lemma handler_returns_event:
  assumes "returned (handler env evt) = Return (Some out) None"
  obtains d cl s1 ci s2 s3 ex s4 s5 where "accepted evt d"
    "getECSClusterName env (EC2InstanceId d) = (Inr cl, s1)"
    "getContainerInstance env cl (EC2InstanceId d) = (Inr ci, s2)"
    "(if Status ci \<noteq> ContainerInstanceStatusDraining
      then setStateDraining env cl (ContainerInstanceArn ci) else (None, [])) = (None, s3)"
    "taskExists env cl (ContainerInstanceArn ci) = (Inr ex, s4)"
    "(if ex then heartbeat env d else complete env d) = (None, s5)"
    "handler env evt = marshalBack evt (d\<lparr>Wait := ex\<rparr>) (s1 @ s2 @ s3 @ s4 @ s5)"
proof (cases rule: handler_cases [of evt env])
  case (Done d cl s1 ci s2 s3 ex s4 s5)
  then show ?thesis using that by blast
qed (use assms in \<open>simp_all add: fail_def\<close>)

text \<open>
  C1. In a run of \<^verbatim>\<open>handler\<close> that returns an event: if a task of the fetched container
  instance reports RUNNING, on either path, the run sends exactly one heartbeat and no
  completion and the returned detail has \<^verbatim>\<open>Wait\<close> true; if none does, the run sends
  exactly one completion, with result CONTINUE, and no heartbeat, and \<^verbatim>\<open>Wait\<close> is false.
\<close>

theorem handler_signals_by_task_presence:
  assumes "returned (handler env evt) = Return (Some out) None"
  shows "\<exists>evtDetail clusterName containerInstance.
           accepted evt evtDetail \<and>
           fst (getECSClusterName env (EC2InstanceId evtDetail)) = Inr clusterName \<and>
           fst (getContainerInstance env clusterName (EC2InstanceId evtDetail))
             = Inr containerInstance \<and>
           (if taskReportsRunning env clusterName (ContainerInstanceArn containerInstance)
            then filter isHeartbeat (calls (handler env evt)) =
                   [RecordLifecycleActionHeartbeat (AutoScalingGroupName evtDetail)
                      (LifecycleActionToken evtDetail) (LifecycleHookName evtDetail)] \<and>
                 filter isComplete (calls (handler env evt)) = [] \<and>
                 waitFlag out = Some (JBool True)
            else filter isComplete (calls (handler env evt)) =
                   [CompleteLifecycleAction (AutoScalingGroupName evtDetail) ''CONTINUE''
                      (LifecycleActionToken evtDetail) (LifecycleHookName evtDetail)] \<and>
                 filter isHeartbeat (calls (handler env evt)) = [] \<and>
                 waitFlag out = Some (JBool False))"
proof -
  from assms obtain d cl s1 ci s2 s3 ex s4 s5 where acc: "accepted evt d"
    and g1: "getECSClusterName env (EC2InstanceId d) = (Inr cl, s1)"
    and g2: "getContainerInstance env cl (EC2InstanceId d) = (Inr ci, s2)"
    and g3: "(if Status ci \<noteq> ContainerInstanceStatusDraining
      then setStateDraining env cl (ContainerInstanceArn ci) else (None, [])) = (None, s3)"
    and g4: "taskExists env cl (ContainerInstanceArn ci) = (Inr ex, s4)"
    and g5: "(if ex then heartbeat env d else complete env d) = (None, s5)"
    and h: "handler env evt = marshalBack evt (d\<lparr>Wait := ex\<rparr>) (s1 @ s2 @ s3 @ s4 @ s5)"
    by (rule handler_returns_event)
  from g4 have ex: "ex = taskReportsRunning env cl (ContainerInstanceArn ci)"
    by (intro taskExists_result) simp
  have c: "calls (handler env evt) = s1 @ s2 @ s3 @ s4 @ s5"
    and o: "out = evt\<lparr>Detail := RawJSON (JObject
       [(''AutoScalingGroupName'', JString (AutoScalingGroupName d)),
        (''EC2InstanceId'', JString (EC2InstanceId d)),
        (''LifecycleActionToken'', JString (LifecycleActionToken d)),
        (''LifecycleHookName'', JString (LifecycleHookName d)),
        (''LifecycleTransition'', JString (LifecycleTransition d)),
        (''Wait'', JBool ex)])\<rparr>"
    using assms unfolding h by (simp_all add: marshalBack_def json_Marshal_total)
  from o have w: "waitFlag out = Some (JBool ex)"
    by (simp add: waitFlag_def detailMembers_def)
  have q1: "filter isHeartbeat s1 = []" "filter isComplete s1 = []"
    using getECSClusterName_calls [of env "EC2InstanceId d"] g1 by simp_all
  have q2: "filter isHeartbeat s2 = []" "filter isComplete s2 = []"
    using readOnly_filters [OF getContainerInstance_calls [of env cl "EC2InstanceId d"]] g2
    by simp_all
  have q3: "filter isHeartbeat s3 = []" "filter isComplete s3 = []"
    using g3 by (auto simp: setStateDraining_def split: if_splits)
  have q4: "filter isHeartbeat s4 = []" "filter isComplete s4 = []"
    using readOnly_filters [OF taskExists_calls [of env cl "ContainerInstanceArn ci"]] g4
    by simp_all
  have q5: "s5 = (if ex
      then [RecordLifecycleActionHeartbeat (AutoScalingGroupName d)
              (LifecycleActionToken d) (LifecycleHookName d)]
      else [CompleteLifecycleAction (AutoScalingGroupName d) ''CONTINUE''
              (LifecycleActionToken d) (LifecycleHookName d)])"
    using g5 by (auto simp: heartbeat_def complete_def split: if_splits)
  have main: "if taskReportsRunning env cl (ContainerInstanceArn ci)
        then filter isHeartbeat (calls (handler env evt)) =
               [RecordLifecycleActionHeartbeat (AutoScalingGroupName d)
                  (LifecycleActionToken d) (LifecycleHookName d)] \<and>
             filter isComplete (calls (handler env evt)) = [] \<and>
             waitFlag out = Some (JBool True)
        else filter isComplete (calls (handler env evt)) =
               [CompleteLifecycleAction (AutoScalingGroupName d) ''CONTINUE''
                  (LifecycleActionToken d) (LifecycleHookName d)] \<and>
             filter isHeartbeat (calls (handler env evt)) = [] \<and>
             waitFlag out = Some (JBool False)"
    using c w q1 q2 q3 q4 q5 ex by simp
  show ?thesis
    apply (rule exI [of _ d], rule exI [of _ cl], rule exI [of _ ci])
    using acc g1 g2 main by simp
qed

theorem handler_signals_by_task_presence_witness:
  "returned (handler example_services example_event) = Return (Some example_output) None \<and>
   \<not> taskReportsRunning example_services ''prod-1'' ''ci-1'' \<and>
   filter isComplete (calls (handler example_services example_event))
     = [CompleteLifecycleAction ''asg'' ''CONTINUE'' ''tok'' ''hook''] \<and>
   filter isHeartbeat (calls (handler example_services example_event)) = [] \<and>
   waitFlag example_output = Some (JBool False) \<and>
   returned (handler busy_services example_event)
     = Return (Some (example_output\<lparr>Detail := RawJSON (JObject
        [(''AutoScalingGroupName'', JString ''asg''),
         (''EC2InstanceId'', JString ''i-1''),
         (''LifecycleActionToken'', JString ''tok''),
         (''LifecycleHookName'', JString ''hook''),
         (''LifecycleTransition'', JString ''autoscaling:EC2_INSTANCE_TERMINATING''),
         (''Wait'', JBool True)])\<rparr>)) None \<and>
   taskReportsRunning busy_services ''prod-1'' ''ci-1'' \<and>
   filter isHeartbeat (calls (handler busy_services example_event))
     = [RecordLifecycleActionHeartbeat ''asg'' ''tok'' ''hook''] \<and>
   filter isComplete (calls (handler busy_services example_event)) = []"
proof -
  have r1: "returned (handler example_services example_event)
              = Return (Some example_output) None"
    by code_simp
  have t1: "\<not> taskReportsRunning example_services ''prod-1'' ''ci-1''"
    by code_simp
  have r2: "returned (handler busy_services example_event)
     = Return (Some (example_output\<lparr>Detail := RawJSON (JObject
        [(''AutoScalingGroupName'', JString ''asg''),
         (''EC2InstanceId'', JString ''i-1''),
         (''LifecycleActionToken'', JString ''tok''),
         (''LifecycleHookName'', JString ''hook''),
         (''LifecycleTransition'', JString ''autoscaling:EC2_INSTANCE_TERMINATING''),
         (''Wait'', JBool True)])\<rparr>)) None"
    by code_simp
  have t2: "taskReportsRunning busy_services ''prod-1'' ''ci-1''"
    by code_simp
  have c1: "filter isComplete (calls (handler example_services example_event))
     = [CompleteLifecycleAction ''asg'' ''CONTINUE'' ''tok'' ''hook'']"
    "filter isHeartbeat (calls (handler example_services example_event)) = []"
    "filter isHeartbeat (calls (handler busy_services example_event))
     = [RecordLifecycleActionHeartbeat ''asg'' ''tok'' ''hook'']"
    "filter isComplete (calls (handler busy_services example_event)) = []"
    by code_simp+
  have w: "waitFlag example_output = Some (JBool False)"
    by code_simp
  have u: "json_Unmarshal (Detail example_event) = (Some example_detail, None)"
    by code_simp
  have g: "fst (getECSClusterName example_services (EC2InstanceId example_detail))
             = Inr ''prod-1''"
    "fst (getContainerInstance example_services ''prod-1'' (EC2InstanceId example_detail))
       = Inr \<lparr>ContainerInstanceArn = ''ci-1'', Ec2InstanceId = ''i-1'', Status = ''ACTIVE''\<rparr>"
    by code_simp+
  from handler_signals_by_task_presence [OF r1] obtain d cl ci
    where a: "accepted example_event d"
      and g1: "fst (getECSClusterName example_services (EC2InstanceId d)) = Inr cl"
      and g2: "fst (getContainerInstance example_services cl (EC2InstanceId d)) = Inr ci"
      and m: "if taskReportsRunning example_services cl (ContainerInstanceArn ci)
            then filter isHeartbeat (calls (handler example_services example_event)) =
                   [RecordLifecycleActionHeartbeat (AutoScalingGroupName d)
                      (LifecycleActionToken d) (LifecycleHookName d)] \<and>
                 filter isComplete (calls (handler example_services example_event)) = [] \<and>
                 waitFlag example_output = Some (JBool True)
            else filter isComplete (calls (handler example_services example_event)) =
                   [CompleteLifecycleAction (AutoScalingGroupName d) ''CONTINUE''
                      (LifecycleActionToken d) (LifecycleHookName d)] \<and>
                 filter isHeartbeat (calls (handler example_services example_event)) = [] \<and>
                 waitFlag example_output = Some (JBool False)"
    by blast
  from a u have d: "d = example_detail" by (simp add: accepted_def)
  from g1 g(1) have cl: "cl = ''prod-1''" unfolding d by simp
  from g2 g(2) have ci: "ContainerInstanceArn ci = ''ci-1''" unfolding d cl by auto
  from m t1 have
    "filter isComplete (calls (handler example_services example_event)) =
       [CompleteLifecycleAction (AutoScalingGroupName example_detail) ''CONTINUE''
          (LifecycleActionToken example_detail) (LifecycleHookName example_detail)] \<and>
     filter isHeartbeat (calls (handler example_services example_event)) = [] \<and>
     waitFlag example_output = Some (JBool False)"
    unfolding d cl ci by simp
  then have "filter isComplete (calls (handler example_services example_event)) =
       [CompleteLifecycleAction ''asg'' ''CONTINUE'' ''tok'' ''hook''] \<and>
     filter isHeartbeat (calls (handler example_services example_event)) = [] \<and>
     waitFlag example_output = Some (JBool False)"
    by (simp add: example_detail_def)
  with r1 r2 t1 t2 c1 show ?thesis by blast
qed




section \<open>The claims about the lookups\<close>

lemma taskExists_range_total:
  assumes "\<forall>arns\<in>set pages. \<exists>tasks. ecs_DescribeTasks env clusterName arns = Inr tasks"
  shows "\<exists>b. fst (taskExists_range env clusterName pages) = Inr b"
  using assms
proof (induction pages)
  case Nil
  have "fst (taskExists_range env clusterName []) = Inr False" by simp
  then show ?case ..
next
  case (Cons arns rest)
  then obtain tasks where d: "ecs_DescribeTasks env clusterName arns = Inr tasks" by auto
  from Cons obtain b where b: "fst (taskExists_range env clusterName rest) = Inr b" by auto
  show ?case
  proof (cases "find (\<lambda>task. LastStatus task = ''RUNNING'') tasks")
    case None
    with d b have "fst (taskExists_range env clusterName (arns # rest)) = Inr b"
      by (simp add: split_beta)
    then show ?thesis ..
  next
    case (Some task)
    with d have "fst (taskExists_range env clusterName (arns # rest)) = Inr True"
      by simp
    then show ?thesis ..
  qed
qed

text \<open>
  C2. When no call fails, \<^verbatim>\<open>taskExists\<close> returns true if and only if the query for
  desired status RUNNING lists a task or some page of the query for desired status STOPPED
  has, described, a task whose last status is RUNNING; it returns false otherwise.
\<close>

theorem taskExists_iff_task_reports_running:
  assumes "ecs_ListTasks env clusterName containerInstanceArn ''RUNNING'' = Inr running"
    and "ecs_ListTasksPages env clusterName containerInstanceArn ''STOPPED'' = (pages, None)"
    and "\<forall>arns\<in>set pages. arns \<noteq> [] \<longrightarrow>
           ecs_DescribeTasks env clusterName arns = Inr (described arns)"
  shows "fst (taskExists env clusterName containerInstanceArn) =
           Inr (running \<noteq> [] \<or>
                (\<exists>arns\<in>set pages. arns \<noteq> [] \<and>
                   (\<exists>task\<in>set (described arns). LastStatus task = ''RUNNING'')))"
proof (cases "running = []")
  case False
  with assms(1) show ?thesis by (simp add: taskExists_def)
next
  case True
  let ?kept = "filter (\<lambda>arns. arns \<noteq> []) pages"
  from assms(3) have "\<forall>arns\<in>set ?kept. \<exists>tasks. ecs_DescribeTasks env clusterName arns = Inr tasks"
    by simp
  from taskExists_range_total [OF this] obtain b
    where b: "fst (taskExists_range env clusterName ?kept) = Inr b" ..
  from taskExists_range_result [OF b] assms(3)
  have "b = (\<exists>arns\<in>set pages. arns \<noteq> [] \<and>
               (\<exists>task\<in>set (described arns). LastStatus task = ''RUNNING''))"
    by auto
  with b True assms(1,2) show ?thesis
    by (simp add: taskExists_def foldl_fn split_beta)
qed

theorem taskExists_iff_task_reports_running_witness:
  "fst (taskExists example_services ''prod-1'' ''ci-1'') = Inr False \<and>
   fst (taskExists lagging_services ''prod-1'' ''ci-1'') = Inr True"
proof -
  have l: "ecs_ListTasks example_services ''prod-1'' ''ci-1'' ''RUNNING'' = Inr []"
    "ecs_ListTasks lagging_services ''prod-1'' ''ci-1'' ''RUNNING'' = Inr []"
    by code_simp+
  have p: "ecs_ListTasksPages example_services ''prod-1'' ''ci-1'' ''STOPPED''
             = ([[''t-0'']], None)"
    "ecs_ListTasksPages lagging_services ''prod-1'' ''ci-1'' ''STOPPED''
             = ([[''t-0'']], None)"
    by code_simp+
  have d1: "\<forall>arns\<in>set [[''t-0'']]. arns \<noteq> [] \<longrightarrow>
      ecs_DescribeTasks example_services ''prod-1'' arns
        = Inr (map (\<lambda>arn. \<lparr>TaskArn = arn, LastStatus = ''STOPPED''\<rparr>) arns)"
    by (simp add: example_services_def)
  have d2: "\<forall>arns\<in>set [[''t-0'']]. arns \<noteq> [] \<longrightarrow>
      ecs_DescribeTasks lagging_services ''prod-1'' arns
        = Inr (map (\<lambda>arn. \<lparr>TaskArn = arn, LastStatus = ''RUNNING''\<rparr>) arns)"
    by (simp add: lagging_services_def example_services_def)
  from taskExists_iff_task_reports_running [OF l(1) p(1) d1]
    taskExists_iff_task_reports_running [OF l(2) p(2) d2]
  show ?thesis by simp
qed

lemma getContainerInstance_range_found:
  assumes "\<forall>arns\<in>set pages.
             ecs_DescribeContainerInstances env clusterName arns = Inr (described arns)"
    and "\<exists>arns\<in>set pages. \<exists>ci\<in>set (described arns). Ec2InstanceId ci = instanceID"
  shows "\<exists>ci. fst (getContainerInstance_range env clusterName instanceID pages) = Inr ci \<and>
           Ec2InstanceId ci = instanceID \<and> (\<exists>arns\<in>set pages. ci \<in> set (described arns))"
  using assms
proof (induction pages)
  case Nil
  then show ?case by simp
next
  case (Cons arns rest)
  from Cons.prems(1) have d:
    "ecs_DescribeContainerInstances env clusterName arns = Inr (described arns)"
    by simp
  show ?case
  proof (cases "find (\<lambda>ci. Ec2InstanceId ci = instanceID) (described arns)")
    case (Some ci)
    then have "Ec2InstanceId ci = instanceID" "ci \<in> set (described arns)"
      by (auto simp: find_Some_iff)
    with d Some show ?thesis by auto
  next
    case None
    then have "\<not> (\<exists>ci\<in>set (described arns). Ec2InstanceId ci = instanceID)"
      by (simp add: find_None_iff)
    with Cons.prems have
      "\<forall>arns\<in>set rest.
         ecs_DescribeContainerInstances env clusterName arns = Inr (described arns)"
      "\<exists>arns\<in>set rest. \<exists>ci\<in>set (described arns). Ec2InstanceId ci = instanceID"
      by auto
    from Cons.IH [OF this] d None show ?thesis
      by (auto simp: split_beta)
  qed
qed

lemma getContainerInstance_range_missing:
  assumes "\<forall>arns\<in>set pages.
             ecs_DescribeContainerInstances env clusterName arns = Inr (described arns)"
    and "\<not> (\<exists>arns\<in>set pages. \<exists>ci\<in>set (described arns). Ec2InstanceId ci = instanceID)"
  shows "fst (getContainerInstance_range env clusterName instanceID pages)
           = Inl (NoContainerInstance clusterName instanceID)"
  using assms
proof (induction pages)
  case Nil
  then show ?case by simp
next
  case (Cons arns rest)
  from Cons.prems(1) have d:
    "ecs_DescribeContainerInstances env clusterName arns = Inr (described arns)"
    by simp
  from Cons.prems(2) have
    "find (\<lambda>ci. Ec2InstanceId ci = instanceID) (described arns) = None"
    by (simp add: find_None_iff)
  with Cons d show ?case by (simp add: split_beta)
qed

text \<open>
  C7. When the listing of the cluster's container instances and the description of each
  of its pages are returned, \<^verbatim>\<open>getContainerInstance\<close> returns an instance of some page
  whose EC2 instance id is the given one whenever a page has such an instance, and it
  fails with the not-found error exactly when no page has one.
\<close>

theorem getContainerInstance_by_instance_id:
  assumes "ecs_ListContainerInstancesPages env clusterName = (pages, None)"
    and "\<forall>arns\<in>set pages. arns \<noteq> [] \<longrightarrow>
           ecs_DescribeContainerInstances env clusterName arns = Inr (described arns)"
  shows "((\<exists>arns\<in>set pages. arns \<noteq> [] \<and>
             (\<exists>ci\<in>set (described arns). Ec2InstanceId ci = instanceID)) \<longrightarrow>
          (\<exists>ci. fst (getContainerInstance env clusterName instanceID) = Inr ci \<and>
             Ec2InstanceId ci = instanceID \<and>
             (\<exists>arns\<in>set pages. arns \<noteq> [] \<and> ci \<in> set (described arns)))) \<and>
         (fst (getContainerInstance env clusterName instanceID)
            = Inl (NoContainerInstance clusterName instanceID) \<longleftrightarrow>
          \<not> (\<exists>arns\<in>set pages. arns \<noteq> [] \<and>
               (\<exists>ci\<in>set (described arns). Ec2InstanceId ci = instanceID))) \<and>
         is_not_found_error (NoContainerInstance clusterName instanceID)"
proof -
  let ?kept = "filter (\<lambda>arns. arns \<noteq> []) pages"
  have r: "fst (getContainerInstance env clusterName instanceID)
             = fst (getContainerInstance_range env clusterName instanceID ?kept)"
    using assms(1) by (simp add: getContainerInstance_def foldl_fn split_beta)
  from assms(2) have d: "\<forall>arns\<in>set ?kept.
      ecs_DescribeContainerInstances env clusterName arns = Inr (described arns)"
    by simp
  show ?thesis
  proof (cases "\<exists>arns\<in>set pages. arns \<noteq> [] \<and>
      (\<exists>ci\<in>set (described arns). Ec2InstanceId ci = instanceID)")
    case True
    then have "\<exists>arns\<in>set ?kept. \<exists>ci\<in>set (described arns). Ec2InstanceId ci = instanceID"
      by auto
    from getContainerInstance_range_found [OF d this] obtain ci
      where "fst (getContainerInstance_range env clusterName instanceID ?kept) = Inr ci"
        "Ec2InstanceId ci = instanceID" "\<exists>arns\<in>set ?kept. ci \<in> set (described arns)"
      by blast
    with True r show ?thesis by auto
  next
    case False
    then have "\<not> (\<exists>arns\<in>set ?kept. \<exists>ci\<in>set (described arns). Ec2InstanceId ci = instanceID)"
      by auto
    from getContainerInstance_range_missing [OF d this] False r show ?thesis by simp
  qed
qed

theorem getContainerInstance_by_instance_id_witness:
  "fst (getContainerInstance example_services ''prod-1'' ''i-1'')
     = Inr \<lparr>ContainerInstanceArn = ''ci-1'', Ec2InstanceId = ''i-1'', Status = ''ACTIVE''\<rparr> \<and>
   fst (getContainerInstance example_services ''prod-1'' ''i-7'')
     = Inl (NoContainerInstance ''prod-1'' ''i-7'')"
proof -
  let ?described = "map (\<lambda>arn. \<lparr>ContainerInstanceArn = arn,
      Ec2InstanceId = (if arn = ''ci-1'' then ''i-1'' else ''i-0''), Status = ''ACTIVE''\<rparr>)"
  have p: "ecs_ListContainerInstancesPages example_services ''prod-1''
             = ([[''ci-0''], [], [''ci-1'']], None)"
    by code_simp
  have d: "\<forall>arns\<in>set [[''ci-0''], [], [''ci-1'']]. arns \<noteq> [] \<longrightarrow>
      ecs_DescribeContainerInstances example_services ''prod-1'' arns = Inr (?described arns)"
    by (simp add: example_services_def)
  have none: "\<not> (\<exists>arns\<in>set [[''ci-0''], [], [''ci-1'']]. arns \<noteq> [] \<and>
      (\<exists>ci\<in>set (?described arns). Ec2InstanceId ci = ''i-7''))"
    by simp
  have found: "fst (getContainerInstance example_services ''prod-1'' ''i-1'')
     = Inr \<lparr>ContainerInstanceArn = ''ci-1'', Ec2InstanceId = ''i-1'', Status = ''ACTIVE''\<rparr>"
    by code_simp
  from getContainerInstance_by_instance_id [OF p d, of "''i-7''"] none
  have "fst (getContainerInstance example_services ''prod-1'' ''i-7'')
     = Inl (NoContainerInstance ''prod-1'' ''i-7'')"
    by blast
  with found show ?thesis by simp
qed

section \<open>The pattern match meets its description\<close>

lemma prefix_takeWhile:
  "prefix n xs \<Longrightarrow> list_all P n \<Longrightarrow> prefix n (takeWhile P xs)"
proof (induction n arbitrary: xs)
  case Nil
  then show ?case by simp
next
  case (Cons a n)
  show ?case
  proof (cases xs)
    case Nil
    with Cons.prems show ?thesis by simp
  next
    case (Cons x ys)
    with Cons.prems Cons.IH [of ys] show ?thesis by simp
  qed
qed

lemma prefix_same_length: "prefix xs ys \<Longrightarrow> length xs = length ys \<Longrightarrow> xs = ys"
  by (auto simp: prefix_def)

lemma prefix_of_takeWhile:
  assumes "prefix n (takeWhile P xs)"
  shows "prefix n xs" "list_all P n"
proof -
  from assms obtain r where r: "takeWhile P xs = n @ r"
    by (auto simp: prefix_def)
  have "prefix (takeWhile P xs) xs"
    by (metis prefixI takeWhile_dropWhile_id)
  with assms show "prefix n xs" by (rule prefix_order.trans)
  have "\<forall>x\<in>set (takeWhile P xs). P x"
    by (auto dest: set_takeWhileD)
  with r show "list_all P n" by (simp add: list_all_iff)
qed

lemma matchHere_occurs:
  "occursAfter afterWord s [] name \<longleftrightarrow>
     \<not> afterWord \<and> (\<exists>m. matchHere s = Some m \<and> name \<noteq> [] \<and> prefix name m)"
proof
  assume o: "occursAfter afterWord s [] name"
  then have p: "prefix (''ECS_CLUSTER='' @ name) s" and ne: "name \<noteq> []"
    and cls: "list_all isClusterNameChar name" and aw: "\<not> afterWord"
    by (simp_all add: occursAfter_def)
  from p obtain r where s: "s = ''ECS_CLUSTER='' @ name @ r"
    by (auto simp: prefix_def)
  then have t: "take 12 s = ''ECS_CLUSTER=''" and d: "drop 12 s = name @ r"
    by simp_all
  from d have "prefix name (drop 12 s)" by simp
  from prefix_takeWhile [OF this cls]
  have q: "prefix name (takeWhile isClusterNameChar (drop 12 s))" .
  with ne have "takeWhile isClusterNameChar (drop 12 s) \<noteq> []" by auto
  with t have "matchHere s = Some (takeWhile isClusterNameChar (drop 12 s))"
    by (simp add: matchHere_def)
  with aw ne q show "\<not> afterWord \<and> (\<exists>m. matchHere s = Some m \<and> name \<noteq> [] \<and> prefix name m)"
    by blast
next
  assume "\<not> afterWord \<and> (\<exists>m. matchHere s = Some m \<and> name \<noteq> [] \<and> prefix name m)"
  then obtain m where aw: "\<not> afterWord" and m: "matchHere s = Some m"
    and ne: "name \<noteq> []" and q: "prefix name m"
    by blast
  from m have t: "take 12 s = ''ECS_CLUSTER=''"
    and me: "m = takeWhile isClusterNameChar (drop 12 s)"
    by (auto simp: matchHere_def split: if_splits)
  from prefix_of_takeWhile [OF q [unfolded me]]
  have pd: "prefix name (drop 12 s)" and cls: "list_all isClusterNameChar name" .
  have "s = take 12 s @ drop 12 s" by simp
  with t have "s = ''ECS_CLUSTER='' @ drop 12 s" by metis
  with pd have "prefix (''ECS_CLUSTER='' @ name) s"
    by (metis same_prefix_prefix)
  with aw ne cls show "occursAfter afterWord s [] name"
    by (simp add: occursAfter_def)
qed

lemma occursAfter_Cons:
  "occursAfter afterWord (c # rest) (b # before) name \<longleftrightarrow>
     b = c \<and> occursAfter (isWordChar c) rest before name"
  by (cases before) (auto simp: occursAfter_def)

lemma occursAfter_Nil: "\<not> occursAfter afterWord [] before name"
  by (simp add: occursAfter_def)

lemma findSubmatch_none:
  "findSubmatch afterWord s = [] \<Longrightarrow> \<not> occursAfter afterWord s before name"
proof (induction s arbitrary: afterWord before)
  case Nil
  show ?case by (rule occursAfter_Nil)
next
  case (Cons c rest)
  show ?case
  proof (cases before)
    case Nil
    from Cons.prems have "afterWord \<or> matchHere (c # rest) = None"
      by (auto split: option.splits if_splits)
    then show ?thesis unfolding Nil matchHere_occurs by auto
  next
    case (Cons b before')
    from Cons.prems have "findSubmatch (isWordChar c) rest = []"
      by (auto split: option.splits if_splits)
    from Cons.IH [OF this] show ?thesis
      unfolding Cons occursAfter_Cons by simp
  qed
qed

lemma findSubmatch_some:
  assumes "findSubmatch afterWord s \<noteq> []"
  shows "\<exists>before name.
           findSubmatch afterWord s = [''ECS_CLUSTER='' @ name, name] \<and>
           occursAfter afterWord s before name \<and>
           (\<forall>before' name'. occursAfter afterWord s before' name' \<longrightarrow>
              length before < length before' \<or>
              (length before = length before' \<and> length name' \<le> length name))"
  using assms
proof (induction s arbitrary: afterWord)
  case Nil
  then show ?case by simp
next
  case (Cons c rest)
  show ?case
  proof (cases "if afterWord then None else matchHere (c # rest)")
    case (Some m)
    then have aw: "\<not> afterWord" and m: "matchHere (c # rest) = Some m"
      by (auto split: if_splits)
    from m have "m \<noteq> []" by (auto simp: matchHere_def split: if_splits)
    with aw m have o: "occursAfter afterWord (c # rest) [] m"
      unfolding matchHere_occurs by simp
    have least: "length [] < length before' \<or>
        (length [] = length before' \<and> length name' \<le> length m)"
      if "occursAfter afterWord (c # rest) before' name'" for before' name' :: string
    proof (cases before')
      case Nil
      from that [unfolded Nil matchHere_occurs] m have "prefix name' m" by simp
      with Nil show ?thesis by (simp add: prefix_length_le)
    next
      case (Cons b bs)
      then show ?thesis by simp
    qed
    from Some have "findSubmatch afterWord (c # rest) = [''ECS_CLUSTER='' @ m, m]"
      by simp
    with o least show ?thesis by blast
  next
    case None
    then have f: "findSubmatch afterWord (c # rest) = findSubmatch (isWordChar c) rest"
      by simp
    with Cons.prems have "findSubmatch (isWordChar c) rest \<noteq> []" by simp
    from Cons.IH [OF this] obtain before name where
      r: "findSubmatch (isWordChar c) rest = [''ECS_CLUSTER='' @ name, name]"
      and o: "occursAfter (isWordChar c) rest before name"
      and l: "\<And>before' name'. occursAfter (isWordChar c) rest before' name' \<Longrightarrow>
              length before < length before' \<or>
              (length before = length before' \<and> length name' \<le> length name)"
      by blast
    from o have o': "occursAfter afterWord (c # rest) (c # before) name"
      unfolding occursAfter_Cons by simp
    have least: "length (c # before) < length before' \<or>
        (length (c # before) = length before' \<and> length name' \<le> length name)"
      if "occursAfter afterWord (c # rest) before' name'" for before' name'
    proof (cases before')
      case Nil
      from None have "afterWord \<or> matchHere (c # rest) = None"
        by (auto split: if_splits)
      with that [unfolded Nil matchHere_occurs] show ?thesis by auto
    next
      case (Cons b bs)
      from that [unfolded Cons occursAfter_Cons]
      have "occursAfter (isWordChar c) rest bs name'" by simp
      from l [OF this] Cons show ?thesis by auto
    qed
    from f r o' least show ?thesis by (metis (no_types, lifting))
  qed
qed

lemma patternOccurs_occursAfter:
  "patternOccurs userData before name = occursAfter False userData before name"
  by (auto simp: patternOccurs_def occursAfter_def)

lemma firstCapture_unique:
  assumes "firstCapture userData n" and "firstCapture userData n'"
  shows "n = n'"
proof -
  from assms(1) obtain b where o: "patternOccurs userData b n"
    and l: "\<And>b' m. patternOccurs userData b' m \<Longrightarrow>
              length b < length b' \<or> (length b = length b' \<and> length m \<le> length n)"
    unfolding firstCapture_def by blast
  from assms(2) obtain b' where o': "patternOccurs userData b' n'"
    and l': "\<And>b m. patternOccurs userData b m \<Longrightarrow>
              length b' < length b \<or> (length b' = length b \<and> length m \<le> length n')"
    unfolding firstCapture_def by blast
  from l [OF o'] l' [OF o] have len: "length b = length b'" "length n = length n'"
    by auto
  from o o' have "prefix (b @ ''ECS_CLUSTER='' @ n) userData"
    "prefix (b' @ ''ECS_CLUSTER='' @ n') userData"
    by (simp_all add: patternOccurs_def)
  then have "prefix (b @ ''ECS_CLUSTER='' @ n) (b' @ ''ECS_CLUSTER='' @ n') \<or>
      prefix (b' @ ''ECS_CLUSTER='' @ n') (b @ ''ECS_CLUSTER='' @ n)"
    by (rule prefix_same_cases)
  with len have "b @ ''ECS_CLUSTER='' @ n = b' @ ''ECS_CLUSTER='' @ n'"
    by (auto dest: prefix_same_length)
  with len show ?thesis by simp
qed

text \<open>
  C6. On the decoded user data of the instance, \<^verbatim>\<open>getECSClusterName\<close> returns the
  first capture of the pattern, and it fails, with the not-found error, exactly when the
  user data holds no occurrence of the pattern.
\<close>

theorem getECSClusterName_first_capture:
  assumes "fst (getUserData env instanceID) = Inr userData"
  shows "(fst (getECSClusterName env instanceID) = Inl NoECSCluster \<longleftrightarrow>
            \<not> (\<exists>before name. patternOccurs userData before name)) \<and>
         (\<forall>clusterName. fst (getECSClusterName env instanceID) = Inr clusterName \<longleftrightarrow>
            firstCapture userData clusterName) \<and>
         (\<forall>err. fst (getECSClusterName env instanceID) = Inl err \<longrightarrow>
            err = NoECSCluster \<and> is_not_found_error err)"
proof (cases "findSubmatch False userData = []")
  case True
  with assms have r: "fst (getECSClusterName env instanceID) = Inl NoECSCluster"
    by (cases "getUserData env instanceID")
       (simp add: getECSClusterName_def ecsClusterRegexp_FindStringSubmatch_def)
  from findSubmatch_none [OF True] have n: "\<not> patternOccurs userData before name"
    for before name
    by (simp add: patternOccurs_occursAfter)
  then have "\<not> firstCapture userData clusterName" for clusterName
    by (auto simp: firstCapture_def)
  with r n show ?thesis by simp
next
  case False
  from findSubmatch_some [OF this] obtain before name where
    f: "findSubmatch False userData = [''ECS_CLUSTER='' @ name, name]"
    and o: "patternOccurs userData before name"
    and l: "\<forall>before' name'. patternOccurs userData before' name' \<longrightarrow>
              length before < length before' \<or>
              (length before = length before' \<and> length name' \<le> length name)"
    unfolding patternOccurs_occursAfter by blast
  from assms f have r: "fst (getECSClusterName env instanceID) = Inr name"
    by (cases "getUserData env instanceID")
       (simp add: getECSClusterName_def ecsClusterRegexp_FindStringSubmatch_def)
  from o l have c: "firstCapture userData name"
    unfolding firstCapture_def by blast
  have "firstCapture userData clusterName \<longleftrightarrow> clusterName = name" for clusterName
    using c firstCapture_unique by blast
  with r o show ?thesis by auto
qed

theorem getECSClusterName_first_capture_witness:
  "fst (getUserData example_services ''i-1'')
     = Inr ''echo ECS_CLUSTER=prod-1 >> /etc/ecs/ecs.config'' \<and>
   fst (getECSClusterName example_services ''i-1'') = Inr ''prod-1'' \<and>
   firstCapture ''echo ECS_CLUSTER=prod-1 >> /etc/ecs/ecs.config'' ''prod-1'' \<and>
   fst (getUserData untagged_services ''i-1'') = Inr ''XECS_CLUSTER=a ECS_CLUSTER= '' \<and>
   fst (getECSClusterName untagged_services ''i-1'') = Inl NoECSCluster \<and>
   \<not> (\<exists>before name. patternOccurs ''XECS_CLUSTER=a ECS_CLUSTER= '' before name)"
proof -
  have u: "fst (getUserData example_services ''i-1'')
     = Inr ''echo ECS_CLUSTER=prod-1 >> /etc/ecs/ecs.config''"
    by code_simp
  have g: "fst (getECSClusterName example_services ''i-1'') = Inr ''prod-1''"
    by code_simp
  have u': "fst (getUserData untagged_services ''i-1'') = Inr ''XECS_CLUSTER=a ECS_CLUSTER= ''"
    by code_simp
  have g': "fst (getECSClusterName untagged_services ''i-1'') = Inl NoECSCluster"
    by code_simp
  from getECSClusterName_first_capture [OF u] g
  have "firstCapture ''echo ECS_CLUSTER=prod-1 >> /etc/ecs/ecs.config'' ''prod-1''"
    by blast
  moreover from getECSClusterName_first_capture [OF u'] g'
  have "\<not> (\<exists>before name. patternOccurs ''XECS_CLUSTER=a ECS_CLUSTER= '' before name)"
    by blast
  ultimately show ?thesis using u g u' g' by blast
qed

end
